theory Spec2Isabelle
  imports Complex_Main
begin

section \<open>Data model of the annotation engine\<close>

text \<open>
  The embedding follows \<^verbatim>\<open>AnnotationManager\<close> in
  \<^verbatim>\<open>static/js/modules/interactiveLoading.js\<close> and \<^verbatim>\<open>Utils.calculateBoundingBox\<close>.
  JavaScript numbers are modelled as mathematical reals: rounding, infinities and NaN of
  IEEE doubles are outside the model. Annotation objects are mutated in place and shared
  by reference, so they live in an explicit heap (a map from references to records) and
  the page arrays of \<^verbatim>\<open>this.annotations\<close> hold references. The \<^verbatim>\<open>Map\<close> itself is an
  association list in insertion order, keyed by the page number that the key string
  \<^verbatim>\<open>page_N\<close> encodes; like the keys of a \<^verbatim>\<open>Map\<close>, its keys are meant to be distinct.
\<close>

record viewport =
  width :: real
  height :: real
  rotation :: real
  scale :: real

record point =
  pt_x :: real
  pt_y :: real

record coordinates =
  startX :: real
  startY :: real
  endX :: real
  endY :: real

record annotation =
  ann_id :: string
  ann_type :: string
  color :: string
  coordinates :: coordinates
  path :: "point list option"
  page :: int
  content :: "string option"
  timestamp :: string

type_synonym ref = nat

type_synonym heap = "ref \<Rightarrow> annotation"

section \<open>Coordinate conversion\<close>

definition canvasToNormalized :: "real \<Rightarrow> real \<Rightarrow> viewport \<Rightarrow> point" where
  "canvasToNormalized x y viewport =
     \<lparr>pt_x = x / width viewport, pt_y = y / height viewport\<rparr>"

definition normalizedToCanvas :: "real \<Rightarrow> real \<Rightarrow> viewport \<Rightarrow> point" where
  "normalizedToCanvas normalizedX normalizedY viewport =
     \<lparr>pt_x = normalizedX * width viewport, pt_y = normalizedY * height viewport\<rparr>"

text \<open>
  \<^verbatim>\<open>areCoordinatesNormalized\<close>: a missing viewport (\<^verbatim>\<open>!viewport\<close>) is \<open>None\<close>.
\<close>

definition areCoordinatesNormalized :: "annotation \<Rightarrow> viewport option \<Rightarrow> bool" where
  "areCoordinatesNormalized annotation viewport =
     (case viewport of
        None \<Rightarrow> True
      | Some _ \<Rightarrow>
          (let c = coordinates annotation;
               maxCoord = max (max (max \<bar>startX c\<bar> \<bar>startY c\<bar>) \<bar>endX c\<bar>) \<bar>endY c\<bar>
           in maxCoord \<le> 2))"

section \<open>Migration of legacy pixel records\<close>

text \<open>
  \<open>migrateFields\<close> is the body of \<^verbatim>\<open>migratePixelToNormalized\<close> read as a function on
  the contents of the record; \<open>migratePixelToNormalized\<close> is the method itself: it
  writes those contents back into the object it was given and returns that object.
\<close>

definition migrateFields :: "annotation \<Rightarrow> viewport option \<Rightarrow> annotation" where
  "migrateFields annotation viewport =
     (case viewport of
        None \<Rightarrow> annotation
      | Some v \<Rightarrow>
          if areCoordinatesNormalized annotation viewport then annotation
          else
            (let normalizedStart =
                   canvasToNormalized (startX (coordinates annotation))
                     (startY (coordinates annotation)) v;
                 normalizedEnd =
                   canvasToNormalized (endX (coordinates annotation))
                     (endY (coordinates annotation)) v;
                 a1 = annotation\<lparr>coordinates :=
                        \<lparr>startX = pt_x normalizedStart, startY = pt_y normalizedStart,
                         endX = pt_x normalizedEnd, endY = pt_y normalizedEnd\<rparr>\<rparr>
             in if ann_type a1 = ''draw'' then
                  (case path a1 of
                     None \<Rightarrow> a1
                   | Some ps \<Rightarrow>
                       a1\<lparr>path :=
                            Some (map (\<lambda>p. canvasToNormalized (pt_x p) (pt_y p) v) ps)\<rparr>)
                else a1))"

definition migratePixelToNormalized :: "ref \<Rightarrow> viewport option \<Rightarrow> heap \<Rightarrow> ref \<times> heap" where
  "migratePixelToNormalized r viewport h = (r, h(r := migrateFields (h r) viewport))"

section \<open>Distance from a point to a segment\<close>

text \<open>
  A quotient whose divisor is zero is \<^verbatim>\<open>Infinity\<close> or \<^verbatim>\<open>NaN\<close> in JavaScript, not a real
  number: \<open>jsDivide\<close> gives \<open>None\<close> for it, and a computation that uses such a quotient
  has no real result either. \<open>distanceToLineSegment\<close> divides by a value that can be zero,
  so its division is checked; in \<open>canvasToNormalized\<close> the divisor is a viewport dimension,
  whose positivity is stated wherever it matters.
\<close>

definition jsDivide :: "real \<Rightarrow> real \<Rightarrow> real option" where
  "jsDivide a b = (if b = 0 then None else Some (a / b))"

definition distanceToLineSegment ::
  "real \<Rightarrow> real \<Rightarrow> real \<Rightarrow> real \<Rightarrow> real \<Rightarrow> real \<Rightarrow> real option" where
  "distanceToLineSegment px py x1 y1 x2 y2 =
     (let A = px - x1; B = py - y1; C = x2 - x1; D = y2 - y1;
          dot = A * C + B * D;
          lenSq = C * C + D * D
      in if lenSq = 0 then Some (sqrt (A * A + B * B))
         else
           (case jsDivide dot lenSq of
              None \<Rightarrow> None
            | Some param \<Rightarrow>
                (let xx = (if param < 0 then x1 else if param > 1 then x2 else x1 + param * C);
                     yy = (if param < 0 then y1 else if param > 1 then y2 else y1 + param * D);
                     dx = px - xx;
                     dy = py - yy
                 in Some (sqrt (dx * dx + dy * dy)))))"

section \<open>Hit testing\<close>

text \<open>
  \<open>hitTest\<close> is the body of one iteration of the loop of \<^verbatim>\<open>getAnnotationAtPoint\<close>
  after the migration: the conversion to device space and the \<^verbatim>\<open>switch\<close> on the type.
  The locals \<^verbatim>\<open>startX .. endY\<close> of the source are \<open>boxStartX .. boxEndY\<close> here.
  The inner loop over \<^verbatim>\<open>j\<close> returns at the first segment within 10 pixels; a distance
  that is not a real number compares false with \<^verbatim>\<open>distance <= 10\<close>.
\<close>

definition hitTest :: "annotation \<Rightarrow> real \<Rightarrow> real \<Rightarrow> viewport \<Rightarrow> bool" where
  "hitTest migratedAnnotation x y viewport =
     (let canvasStart =
            normalizedToCanvas (startX (coordinates migratedAnnotation))
              (startY (coordinates migratedAnnotation)) viewport;
          canvasEnd =
            normalizedToCanvas (endX (coordinates migratedAnnotation))
              (endY (coordinates migratedAnnotation)) viewport;
          boxStartX = min (pt_x canvasStart) (pt_x canvasEnd);
          boxStartY = min (pt_y canvasStart) (pt_y canvasEnd);
          boxEndX = max (pt_x canvasStart) (pt_x canvasEnd);
          boxEndY = max (pt_y canvasStart) (pt_y canvasEnd)
      in if ann_type migratedAnnotation = ''note'' then
           (let noteSize = 24
            in x \<ge> pt_x canvasStart \<and> x \<le> pt_x canvasStart + noteSize
               \<and> y \<ge> pt_y canvasStart \<and> y \<le> pt_y canvasStart + noteSize)
         else if ann_type migratedAnnotation = ''draw'' then
           (case path migratedAnnotation of
              None \<Rightarrow> False
            | Some ps \<Rightarrow>
                length ps > 0
                \<and> list_ex
                    (\<lambda>j. let point1 = normalizedToCanvas (pt_x (ps ! j)) (pt_y (ps ! j)) viewport;
                             point2 =
                               normalizedToCanvas (pt_x (ps ! (j + 1))) (pt_y (ps ! (j + 1)))
                                 viewport;
                             distance =
                               distanceToLineSegment x y (pt_x point1) (pt_y point1)
                                 (pt_x point2) (pt_y point2)
                         in case distance of None \<Rightarrow> False | Some d \<Rightarrow> d \<le> 10)
                    [0..<length ps - 1])
         else x \<ge> boxStartX \<and> x \<le> boxEndX \<and> y \<ge> boxStartY \<and> y \<le> boxEndY)"

section \<open>The annotation manager\<close>

text \<open>
  A JavaScript call either returns or throws. The only exception in the modelled code is
  the \<^verbatim>\<open>TypeError\<close> of reading \<^verbatim>\<open>viewport.width\<close> when the viewport is \<^verbatim>\<open>null\<close>.
  The state reached is kept in both cases, since writes made before the throw persist.
\<close>

datatype error = TypeError

datatype 'a outcome = Returned 'a | Thrown error

datatype jsval = Undefined | Boolean bool

record manager =
  heap :: heap
  nextRef :: ref
  annotations :: "(int \<times> ref list) list"
  currentTool :: string
  currentColor :: string
  isDrawing :: bool
  currentStroke :: "point list option"
  notifications :: "(string \<times> string) list"

text \<open>
  What the methods read from outside the manager: the page shown by the PDF manager,
  whether \<^verbatim>\<open>document.querySelector('.annotation-canvas')\<close> finds a canvas, and the
  viewport stored on the interaction layer (\<open>None\<close> when there is no layer or no
  viewport). \<^verbatim>\<open>Utils.generateId()\<close> and \<^verbatim>\<open>new Date().toISOString()\<close> are passed to the
  creating methods as \<open>newId\<close> and \<open>now\<close>. Drawing on the canvas and the annotation list
  of the side panel are not part of the state; \<^verbatim>\<open>showNotification\<close> appends to
  \<open>notifications\<close>.
\<close>

record env =
  currentPage :: int
  annotationCanvas :: bool
  layerViewport :: "viewport option"

definition UNDERLINE_RED :: string where
  "UNDERLINE_RED = ''#ff0000''"

definition NOTE_BACKGROUND :: string where
  "NOTE_BACKGROUND = ''#ffd700''"

text \<open>\<^verbatim>\<open>this.annotations.get(pageKey) || []\<close>\<close>

definition pageAnnotations :: "manager \<Rightarrow> int \<Rightarrow> ref list" where
  "pageAnnotations st pageNum =
     (case map_of (annotations st) pageNum of Some refs \<Rightarrow> refs | None \<Rightarrow> [])"

text \<open>\<^verbatim>\<open>if (!this.annotations.has(pageKey)) this.annotations.set(pageKey, [])\<close>\<close>

definition ensurePage :: "int \<Rightarrow> manager \<Rightarrow> manager" where
  "ensurePage pageNum st =
     (if map_of (annotations st) pageNum = None
      then st\<lparr>annotations := annotations st @ [(pageNum, [])]\<rparr>
      else st)"

text \<open>
  The object literal allocates a fresh object; \<^verbatim>\<open>this.annotations.get(pageKey).push\<close>
  appends the reference to the page's array.
\<close>

definition pushAnnotation :: "int \<Rightarrow> annotation \<Rightarrow> manager \<Rightarrow> manager" where
  "pushAnnotation pageNum annotation st =
     (let r = nextRef st
      in st\<lparr>heap := (heap st)(r := annotation),
            nextRef := Suc r,
            annotations :=
              map (\<lambda>(k, refs). if k = pageNum then (k, refs @ [r]) else (k, refs))
                (annotations st)\<rparr>)"

definition showNotification :: "string \<Rightarrow> string \<Rightarrow> manager \<Rightarrow> manager" where
  "showNotification message kind st =
     st\<lparr>notifications := notifications st @ [(message, kind)]\<rparr>"

definition createAnnotation ::
  "int \<Rightarrow> real \<Rightarrow> real \<Rightarrow> real \<Rightarrow> real \<Rightarrow> string \<Rightarrow> string \<Rightarrow> string \<Rightarrow> string
   \<Rightarrow> manager \<Rightarrow> manager" where
  "createAnnotation pageNum sx sy ex ey tool col newId now st =
     (let st1 = ensurePage pageNum st;
          annotationColor = (if tool = ''underline'' then UNDERLINE_RED else col);
          annotation =
            \<lparr>ann_id = newId, ann_type = tool, color = annotationColor,
             coordinates =
               \<lparr>startX = min sx ex, startY = min sy ey, endX = max sx ex, endY = max sy ey\<rparr>,
             path = None, page = pageNum, content = None, timestamp = now\<rparr>
      in showNotification (tool @ '' annotation added'') ''success''
           (pushAnnotation pageNum annotation st1))"

record boundingBox =
  minX :: real
  minY :: real
  maxX :: real
  maxY :: real

definition calculateBoundingBox :: "point list option \<Rightarrow> boundingBox option" where
  "calculateBoundingBox p =
     (case p of
        None \<Rightarrow> None
      | Some [] \<Rightarrow> None
      | Some (p0 # rest) \<Rightarrow>
          Some (fold
                 (\<lambda>point b.
                    \<lparr>minX = min (minX b) (pt_x point), minY = min (minY b) (pt_y point),
                     maxX = max (maxX b) (pt_x point), maxY = max (maxY b) (pt_y point)\<rparr>)
                 (p0 # rest)
                 \<lparr>minX = pt_x p0, minY = pt_y p0, maxX = pt_x p0, maxY = pt_y p0\<rparr>))"

definition createDrawAnnotation ::
  "int \<Rightarrow> point list option \<Rightarrow> string \<Rightarrow> string \<Rightarrow> string \<Rightarrow> manager \<Rightarrow> manager" where
  "createDrawAnnotation pageNum p col newId now st =
     (let st1 = ensurePage pageNum st
      in case calculateBoundingBox p of
           None \<Rightarrow> st1
         | Some bb \<Rightarrow>
             (let annotation =
                    \<lparr>ann_id = newId, ann_type = ''draw'', color = col,
                     coordinates =
                       \<lparr>startX = minX bb, startY = minY bb, endX = maxX bb, endY = maxY bb\<rparr>,
                     path = p, page = pageNum, content = None, timestamp = now\<rparr>
              in showNotification ''Drawing annotation added'' ''success''
                   (pushAnnotation pageNum annotation st1)))"

text \<open>
  \<^verbatim>\<open>createNoteAnnotation\<close>; the deferred \<^verbatim>\<open>openNoteEditor\<close> (a later event that only edits
  \<^verbatim>\<open>content\<close>) is not part of the call.
\<close>

definition createNoteAnnotation ::
  "int \<Rightarrow> real \<Rightarrow> real \<Rightarrow> env \<Rightarrow> string \<Rightarrow> string \<Rightarrow> manager \<Rightarrow> manager" where
  "createNoteAnnotation pageNum normalizedX normalizedY e newId now st =
     (let st1 = ensurePage pageNum st;
          noteWidth = (case layerViewport e of None \<Rightarrow> 0.02 | Some v \<Rightarrow> 24 / width v);
          noteHeight = (case layerViewport e of None \<Rightarrow> 0.02 | Some v \<Rightarrow> 24 / height v);
          annotation =
            \<lparr>ann_id = newId, ann_type = ''note'', color = NOTE_BACKGROUND,
             coordinates =
               \<lparr>startX = normalizedX, startY = normalizedY,
                endX = normalizedX + noteWidth, endY = normalizedY + noteHeight\<rparr>,
             path = None, page = pageNum, content = Some [], timestamp = now\<rparr>
      in showNotification ''Note created - click to edit'' ''success''
           (pushAnnotation pageNum annotation st1))"

subsection \<open>Rendering, as far as it touches the records\<close>

text \<open>
  \<^verbatim>\<open>renderSingleAnnotation\<close> migrates the record and then reads \<^verbatim>\<open>viewport.width\<close>,
  which throws for a \<^verbatim>\<open>null\<close> viewport. \<^verbatim>\<open>renderAnnotations\<close> does this for each record
  of the page in insertion order.
\<close>

definition renderSingleAnnotation :: "ref \<Rightarrow> viewport option \<Rightarrow> heap \<Rightarrow> unit outcome \<times> heap" where
  "renderSingleAnnotation annotation viewport h =
     (let h' = snd (migratePixelToNormalized annotation viewport h)
      in case viewport of
           None \<Rightarrow> (Thrown TypeError, h')
         | Some v \<Rightarrow> (Returned (), h'))"

fun renderEach :: "ref list \<Rightarrow> viewport option \<Rightarrow> heap \<Rightarrow> unit outcome \<times> heap" where
  "renderEach [] viewport h = (Returned (), h)"
| "renderEach (annotation # rest) viewport h =
     (case renderSingleAnnotation annotation viewport h of
        (Thrown err, h') \<Rightarrow> (Thrown err, h')
      | (Returned _, h') \<Rightarrow> renderEach rest viewport h')"

definition renderAnnotations :: "int \<Rightarrow> viewport option \<Rightarrow> manager \<Rightarrow> unit outcome \<times> manager" where
  "renderAnnotations pageNum viewport st =
     (case renderEach (pageAnnotations st pageNum) viewport (heap st) of
        (res, h') \<Rightarrow> (res, st\<lparr>heap := h'\<rparr>))"

subsection \<open>Finding the annotation at a point\<close>

text \<open>
  \<open>hitLoop n\<close> is the loop \<^verbatim>\<open>for (let i = length - 1; i >= 0; i--)\<close> with \<open>n = i + 1\<close>
  iterations left.
\<close>

fun hitLoop ::
  "nat \<Rightarrow> ref list \<Rightarrow> real \<Rightarrow> real \<Rightarrow> viewport option \<Rightarrow> heap \<Rightarrow> ref option outcome \<times> heap" where
  "hitLoop 0 refs x y viewport h = (Returned None, h)"
| "hitLoop (Suc i) refs x y viewport h =
     (let annotation = refs ! i;
          h' = snd (migratePixelToNormalized annotation viewport h)
      in case viewport of
           None \<Rightarrow> (Thrown TypeError, h')
         | Some v \<Rightarrow>
             if hitTest (h' annotation) x y v then (Returned (Some annotation), h')
             else hitLoop i refs x y viewport h')"

definition getAnnotationAtPoint ::
  "int \<Rightarrow> real \<Rightarrow> real \<Rightarrow> viewport option \<Rightarrow> manager \<Rightarrow> ref option outcome \<times> manager" where
  "getAnnotationAtPoint pageNum x y viewport st =
     (let refs = pageAnnotations st pageNum
      in case hitLoop (length refs) refs x y viewport (heap st) of
           (res, h') \<Rightarrow> (res, st\<lparr>heap := h'\<rparr>))"

subsection \<open>Deleting by id\<close>

text \<open>\<^verbatim>\<open>Array.prototype.findIndex\<close>, with \<open>None\<close> for \<^verbatim>\<open>-1\<close>.\<close>

fun findIndex :: "('a \<Rightarrow> bool) \<Rightarrow> 'a list \<Rightarrow> nat option" where
  "findIndex P [] = None"
| "findIndex P (a # as) = (if P a then Some 0 else map_option Suc (findIndex P as))"

text \<open>
  \<open>deleteEach\<close> is the \<^verbatim>\<open>forEach\<close> over the entries of the \<^verbatim>\<open>Map\<close>, in the order of its
  keys. On the page being displayed it re-renders with a \<^verbatim>\<open>null\<close> viewport when an
  annotation canvas exists. The method has no \<^verbatim>\<open>return\<close> statement: a call that does not
  throw evaluates to \<^verbatim>\<open>undefined\<close>.
\<close>

fun deleteEach :: "int list \<Rightarrow> string \<Rightarrow> env \<Rightarrow> manager \<Rightarrow> unit outcome \<times> manager" where
  "deleteEach [] annotationId e st = (Returned (), st)"
| "deleteEach (pageNum # keys) annotationId e st =
     (let pageAnns = pageAnnotations st pageNum
      in case findIndex (\<lambda>a. ann_id (heap st a) = annotationId) pageAnns of
           None \<Rightarrow> deleteEach keys annotationId e st
         | Some index \<Rightarrow>
             (let spliced = take index pageAnns @ drop (Suc index) pageAnns;
                  st1 = st\<lparr>annotations :=
                             map (\<lambda>(k, refs). if k = pageNum then (k, spliced) else (k, refs))
                               (annotations st)\<rparr>
              in if pageNum = currentPage e \<and> annotationCanvas e then
                   (case renderAnnotations pageNum None st1 of
                      (Thrown err, st2) \<Rightarrow> (Thrown err, st2)
                    | (Returned _, st2) \<Rightarrow> deleteEach keys annotationId e st2)
                 else deleteEach keys annotationId e st1))"

definition deleteAnnotation :: "string \<Rightarrow> env \<Rightarrow> manager \<Rightarrow> jsval outcome \<times> manager" where
  "deleteAnnotation annotationId e st =
     (case deleteEach (map fst (annotations st)) annotationId e st of
        (Thrown err, st') \<Rightarrow> (Thrown err, st')
      | (Returned _, st') \<Rightarrow>
          (Returned Undefined, showNotification ''Annotation deleted'' ''success'' st'))"

subsection \<open>Releasing the pointer\<close>

text \<open>
  The variables \<^verbatim>\<open>isDrawing, startX, startY, endX, endY\<close> of the closure of
  \<^verbatim>\<open>setupPageInteractions\<close>. The start point is read only while \<open>g_isDrawing\<close> holds,
  and \<^verbatim>\<open>mousedown\<close> sets both together.
\<close>

record gesture =
  g_isDrawing :: bool
  g_startX :: real
  g_startY :: real
  g_endX :: real
  g_endY :: real

text \<open>
  The \<^verbatim>\<open>mouseup\<close> handler; \<open>cx, cy\<close> are the canvas coordinates of the event and
  \<open>viewport\<close> is the (non-null) viewport the handlers were set up with.
\<close>

definition mouseup ::
  "real \<Rightarrow> real \<Rightarrow> viewport \<Rightarrow> env \<Rightarrow> string \<Rightarrow> string \<Rightarrow> gesture \<times> manager
   \<Rightarrow> unit outcome \<times> gesture \<times> manager" where
  "mouseup cx cy viewport e newId now gs =
     (case gs of (g, st) \<Rightarrow>
        if \<not> g_isDrawing g \<or> currentTool st = ''select'' \<or> currentTool st = ''eraser''
        then (Returned (), g, st)
        else
          (let g1 = g\<lparr>g_endX := cx, g_endY := cy, g_isDrawing := False\<rparr>;
               st1 =
                 (if currentTool st = ''draw'' then
                    (let st2 = st\<lparr>isDrawing := False\<rparr>;
                         st3 =
                           (case currentStroke st2 of
                              None \<Rightarrow> st2
                            | Some stroke \<Rightarrow>
                                if length stroke > 1 then
                                  (let normalizedStroke =
                                         map (\<lambda>p. canvasToNormalized (pt_x p) (pt_y p) viewport)
                                           stroke
                                   in createDrawAnnotation (currentPage e)
                                        (Some normalizedStroke) (currentColor st2) newId now st2)
                                else st2)
                     in st3\<lparr>currentStroke := None\<rparr>)
                  else
                    (let normalizedCoords =
                           canvasToNormalized (g_startX g1) (g_startY g1) viewport;
                         normalizedCoords2 =
                           canvasToNormalized (g_endX g1) (g_endY g1) viewport
                     in createAnnotation (currentPage e)
                          (pt_x normalizedCoords) (pt_y normalizedCoords)
                          (pt_x normalizedCoords2) (pt_y normalizedCoords2)
                          (currentTool st) (currentColor st) newId now st))
           in case renderAnnotations (currentPage e) (Some viewport) st1 of
                (res, st4) \<Rightarrow> (res, g1, st4)))"

section \<open>Specification-level notions\<close>

text \<open>
  The test that one iteration of the hit loop applies to the record behind \<open>r\<close>:
  migrate it with the current viewport, then run the type-specific geometry test.
\<close>

definition migratedHit :: "heap \<Rightarrow> ref \<Rightarrow> real \<Rightarrow> real \<Rightarrow> viewport \<Rightarrow> bool" where
  "migratedHit h r x y v = hitTest (migrateFields (h r) (Some v)) x y v"

text \<open>A rectangle annotation is one of the box tools: neither a note nor a drawing.\<close>

definition isRectangle :: "annotation \<Rightarrow> bool" where
  "isRectangle a = (ann_type a \<noteq> ''note'' \<and> ann_type a \<noteq> ''draw'')"

text \<open>
  The point lies within the axis-aligned box spanned by the transformed
  \<open>(startX, startY)\<close> and \<open>(endX, endY)\<close>.
\<close>

definition insideDeviceBox :: "annotation \<Rightarrow> viewport \<Rightarrow> real \<Rightarrow> real \<Rightarrow> bool" where
  "insideDeviceBox a v x y =
     (let s = normalizedToCanvas (startX (coordinates a)) (startY (coordinates a)) v;
          e = normalizedToCanvas (endX (coordinates a)) (endY (coordinates a)) v
      in min (pt_x s) (pt_x e) \<le> x \<and> x \<le> max (pt_x s) (pt_x e)
         \<and> min (pt_y s) (pt_y e) \<le> y \<and> y \<le> max (pt_y s) (pt_y e))"

text \<open>
  The standard point-to-segment distance in the words of the specification: clamp the
  projection parameter to \<open>[0,1]\<close>, take the closest point, return the Euclidean
  distance. For a segment of length zero the quotient is \<open>0\<close> in HOL, and every
  parameter denotes the same point.
\<close>

definition clampedProjectionDistance ::
  "real \<Rightarrow> real \<Rightarrow> real \<Rightarrow> real \<Rightarrow> real \<Rightarrow> real \<Rightarrow> real" where
  "clampedProjectionDistance px py x1 y1 x2 y2 =
     (let t = ((px - x1) * (x2 - x1) + (py - y1) * (y2 - y1))
                / ((x2 - x1)\<^sup>2 + (y2 - y1)\<^sup>2);
          tc = max 0 (min 1 t);
          cx = x1 + tc * (x2 - x1);
          cy = y1 + tc * (y2 - y1)
      in sqrt ((px - cx)\<^sup>2 + (py - cy)\<^sup>2))"

text \<open>The path of a record in device space, and a point within 10 pixels of one of its segments.\<close>

definition transformedPolyline :: "annotation \<Rightarrow> viewport \<Rightarrow> point list" where
  "transformedPolyline a v =
     (case path a of
        None \<Rightarrow> []
      | Some ps \<Rightarrow> map (\<lambda>p. normalizedToCanvas (pt_x p) (pt_y p) v) ps)"

definition nearPolyline :: "point list \<Rightarrow> real \<Rightarrow> real \<Rightarrow> bool" where
  "nearPolyline poly x y =
     (\<exists>j. Suc j < length poly
          \<and> clampedProjectionDistance x y (pt_x (poly ! j)) (pt_y (poly ! j))
                (pt_x (poly ! Suc j)) (pt_y (poly ! Suc j)) \<le> 10)"

definition coordinatesOrdered :: "coordinates \<Rightarrow> bool" where
  "coordinatesOrdered c = (startX c \<le> endX c \<and> startY c \<le> endY c)"

text \<open>Removing the first element that satisfies a predicate, as \<^verbatim>\<open>findIndex\<close> and \<^verbatim>\<open>splice\<close> do.\<close>

definition removeFirst :: "('a \<Rightarrow> bool) \<Rightarrow> 'a list \<Rightarrow> 'a list" where
  "removeFirst P xs =
     (case findIndex P xs of None \<Rightarrow> xs | Some i \<Rightarrow> take i xs @ drop (Suc i) xs)"

text \<open>All records of the store in page order, and the uniqueness of their ids.\<close>

definition allRecords :: "manager \<Rightarrow> ref list" where
  "allRecords st = concat (map snd (annotations st))"

definition uniqueIds :: "manager \<Rightarrow> bool" where
  "uniqueIds st = distinct (map (\<lambda>r. ann_id (heap st r)) (allRecords st))"

text \<open>
  The re-render inside \<^verbatim>\<open>deleteAnnotation\<close> runs with a \<^verbatim>\<open>null\<close> viewport and throws as
  soon as it has a record to draw. That is the case when an annotation canvas exists, the
  displayed page holds a record with the id, and a record is left on that page after the
  removal.
\<close>

definition rerenderThrows :: "string \<Rightarrow> env \<Rightarrow> manager \<Rightarrow> bool" where
  "rerenderThrows annotationId e st =
     (annotationCanvas e
      \<and> (\<exists>r\<in>set (pageAnnotations st (currentPage e)). ann_id (heap st r) = annotationId)
      \<and> removeFirst (\<lambda>r. ann_id (heap st r) = annotationId)
            (pageAnnotations st (currentPage e)) \<noteq> [])"

section \<open>Example data\<close>

definition exampleViewport :: viewport where
  "exampleViewport = \<lparr>width = 1000, height = 1000, rotation = 0, scale = 1\<rparr>"

definition smallViewport :: viewport where
  "smallViewport = \<lparr>width = 100, height = 100, rotation = 0, scale = 1\<rparr>"

definition legacyHighlight :: annotation where
  "legacyHighlight =
     \<lparr>ann_id = ''a0'', ann_type = ''highlight'', color = ''#ffff00'',
      coordinates = \<lparr>startX = 500, startY = 300, endX = 700, endY = 400\<rparr>,
      path = None, page = 1, content = None, timestamp = ''t0''\<rparr>"

definition exampleHighlight :: annotation where
  "exampleHighlight =
     \<lparr>ann_id = ''a1'', ann_type = ''highlight'', color = ''#ffff00'',
      coordinates = \<lparr>startX = 0.1, startY = 0.1, endX = 0.3, endY = 0.15\<rparr>,
      path = None, page = 1, content = None, timestamp = ''t1''\<rparr>"

definition exampleUnderline :: annotation where
  "exampleUnderline =
     \<lparr>ann_id = ''a2'', ann_type = ''underline'', color = ''#ff0000'',
      coordinates = \<lparr>startX = 0.2, startY = 0.1, endX = 0.4, endY = 0.2\<rparr>,
      path = None, page = 1, content = None, timestamp = ''t2''\<rparr>"

definition exampleNote :: annotation where
  "exampleNote =
     \<lparr>ann_id = ''a3'', ann_type = ''note'', color = ''#ffd700'',
      coordinates = \<lparr>startX = 0.5, startY = 0.5, endX = 0.524, endY = 0.524\<rparr>,
      path = None, page = 2, content = Some [], timestamp = ''t3''\<rparr>"

definition examplePath :: "point list" where
  "examplePath = [\<lparr>pt_x = 0.1, pt_y = 0.9\<rparr>, \<lparr>pt_x = 0.5, pt_y = 0.1\<rparr>,
                  \<lparr>pt_x = 0.8, pt_y = 0.6\<rparr>]"

definition exampleDraw :: annotation where
  "exampleDraw =
     \<lparr>ann_id = ''a4'', ann_type = ''draw'', color = ''#ffff00'',
      coordinates = \<lparr>startX = 0.1, startY = 0.1, endX = 0.8, endY = 0.9\<rparr>,
      path = Some [\<lparr>pt_x = 0.1, pt_y = 0.9\<rparr>, \<lparr>pt_x = 0.5, pt_y = 0.1\<rparr>,
                   \<lparr>pt_x = 0.8, pt_y = 0.6\<rparr>],
      page = 2, content = None, timestamp = ''t4''\<rparr>"

definition exampleHeap :: heap where
  "exampleHeap =
     (\<lambda>_. exampleHighlight)(1 := exampleUnderline, 2 := exampleNote, 3 := exampleDraw)"

text \<open>
  Page 1 holds the highlight and then the underline; page 2 holds the drawing and then
  the note. The draw tool is active and a stroke of one point has been started.
\<close>

definition exampleManager :: manager where
  "exampleManager =
     \<lparr>heap = exampleHeap, nextRef = 4, annotations = [(1, [0, 1]), (2, [3, 2])],
      currentTool = ''draw'', currentColor = ''#ffff00'', isDrawing = True,
      currentStroke = Some [\<lparr>pt_x = 40, pt_y = 50\<rparr>], notifications = []\<rparr>"

text \<open>The same records with the drawing alone on page 2 and the note on page 3.\<close>

definition singlePageManager :: manager where
  "singlePageManager = exampleManager\<lparr>annotations := [(1, [0, 1]), (2, [3]), (3, [2])]\<rparr>"

definition exampleEnv :: env where
  "exampleEnv =
     \<lparr>currentPage = 2, annotationCanvas = True, layerViewport = Some exampleViewport\<rparr>"

definition exampleGesture :: gesture where
  "exampleGesture =
     \<lparr>g_isDrawing = True, g_startX = 40, g_startY = 50, g_endX = 40, g_endY = 50\<rparr>"

lemmas example_defs = exampleViewport_def exampleHighlight_def exampleUnderline_def
  exampleNote_def exampleDraw_def exampleHeap_def exampleManager_def

section \<open>Coordinate round trip\<close>

text \<open>
  C1. For a viewport of positive width and height, converting a device point to
  normalized space and back gives the point again. Over the reals the equality is exact.
\<close>

theorem canvas_normalized_roundtrip:
  assumes "0 < width v" and "0 < height v"
  shows "normalizedToCanvas (pt_x (canvasToNormalized x y v))
           (pt_y (canvasToNormalized x y v)) v = \<lparr>pt_x = x, pt_y = y\<rparr>"
  using assms by (simp add: canvasToNormalized_def normalizedToCanvas_def)

theorem canvas_normalized_roundtrip_witness:
  "0 < width \<lparr>width = 800, height = 600, rotation = 0, scale = 1\<rparr>
   \<and> 0 < height \<lparr>width = 800, height = 600, rotation = 0, scale = 1\<rparr>
   \<and> normalizedToCanvas
        (pt_x (canvasToNormalized 100 150 \<lparr>width = 800, height = 600, rotation = 0, scale = 1\<rparr>))
        (pt_y (canvasToNormalized 100 150 \<lparr>width = 800, height = 600, rotation = 0, scale = 1\<rparr>))
        \<lparr>width = 800, height = 600, rotation = 0, scale = 1\<rparr>
      = \<lparr>pt_x = 100, pt_y = 150\<rparr>"
  using canvas_normalized_roundtrip
          [of "\<lparr>width = 800, height = 600, rotation = 0, scale = 1\<rparr>" 100 150]
  by simp

section \<open>Migration\<close>

lemma migrateFields_type [simp]: "ann_type (migrateFields a v) = ann_type a"
  by (simp add: migrateFields_def Let_def split: option.splits)

lemma migrateFields_normalized: "areCoordinatesNormalized a v \<Longrightarrow> migrateFields a v = a"
  by (cases v) (simp_all add: migrateFields_def)

lemma migrateFields_only_coordinates_and_path:
  "migrateFields a viewport =
     a\<lparr>coordinates := coordinates (migrateFields a viewport),
       path := path (migrateFields a viewport)\<rparr>"
  by (simp add: migrateFields_def Let_def split: option.splits)

lemma migrateFields_lands_in_range:
  assumes "0 < width v" "0 < height v"
    "\<bar>startX (coordinates a)\<bar> \<le> 2 * width v" "\<bar>endX (coordinates a)\<bar> \<le> 2 * width v"
    "\<bar>startY (coordinates a)\<bar> \<le> 2 * height v" "\<bar>endY (coordinates a)\<bar> \<le> 2 * height v"
  shows "areCoordinatesNormalized (migrateFields a (Some v)) (Some v)"
  using assms
  by (auto simp add: migrateFields_def areCoordinatesNormalized_def Let_def canvasToNormalized_def
      abs_divide field_simps split: option.splits)

text \<open>
  A legacy highlight drawn on a canvas 1000 pixels wide and now shown 100 pixels wide:
  the first migration gives \<open>(5, 3, 7, 4)\<close>, which the classifier still reads as pixels,
  so the second migration divides again.
\<close>

theorem migrate_twice_counterexample:
  "coordinates (snd (migratePixelToNormalized 0 (Some smallViewport)
        (snd (migratePixelToNormalized 0 (Some smallViewport) (\<lambda>_. legacyHighlight)))) 0)
   \<noteq> coordinates (snd (migratePixelToNormalized 0 (Some smallViewport) (\<lambda>_. legacyHighlight)) 0)"
  by (simp add: migratePixelToNormalized_def migrateFields_def areCoordinatesNormalized_def
      legacyHighlight_def smallViewport_def canvasToNormalized_def Let_def)

text \<open>
  C2 (as amended). Migrating twice is the same as migrating once when there is no
  viewport, or when the viewport has positive dimensions and every coordinate of the
  record is at most twice the matching viewport dimension in magnitude: then one
  migration lands within the classifier's threshold and the second is a no-op. The
  whole record, path included, is the same.
\<close>

theorem migrate_idempotent_within_range:
  assumes "viewport = None \<or> (\<exists>v. viewport = Some v \<and> 0 < width v \<and> 0 < height v
     \<and> \<bar>startX (coordinates (h r))\<bar> \<le> 2 * width v \<and> \<bar>endX (coordinates (h r))\<bar> \<le> 2 * width v
     \<and> \<bar>startY (coordinates (h r))\<bar> \<le> 2 * height v \<and> \<bar>endY (coordinates (h r))\<bar> \<le> 2 * height v)"
  shows "migratePixelToNormalized r viewport (snd (migratePixelToNormalized r viewport h))
         = migratePixelToNormalized r viewport h"
proof -
  have "migrateFields (migrateFields (h r) viewport) viewport = migrateFields (h r) viewport"
  proof (cases viewport)
    case None
    then show ?thesis by (simp add: migrateFields_def)
  next
    case (Some v)
    with assms have "areCoordinatesNormalized (migrateFields (h r) (Some v)) (Some v)"
      by (intro migrateFields_lands_in_range) auto
    then show ?thesis using Some by (simp add: migrateFields_normalized)
  qed
  then show ?thesis by (simp add: migratePixelToNormalized_def)
qed

theorem migrate_idempotent_within_range_witness:
  "0 < width exampleViewport \<and> 0 < height exampleViewport
   \<and> \<bar>startX (coordinates legacyHighlight)\<bar> \<le> 2 * width exampleViewport
   \<and> \<bar>endX (coordinates legacyHighlight)\<bar> \<le> 2 * width exampleViewport
   \<and> \<bar>startY (coordinates legacyHighlight)\<bar> \<le> 2 * height exampleViewport
   \<and> \<bar>endY (coordinates legacyHighlight)\<bar> \<le> 2 * height exampleViewport
   \<and> \<not> areCoordinatesNormalized legacyHighlight (Some exampleViewport)
   \<and> migratePixelToNormalized 0 (Some exampleViewport)
         (snd (migratePixelToNormalized 0 (Some exampleViewport) (\<lambda>_. legacyHighlight)))
       = migratePixelToNormalized 0 (Some exampleViewport) (\<lambda>_. legacyHighlight)"
proof -
  have h: "0 < width exampleViewport \<and> 0 < height exampleViewport
   \<and> \<bar>startX (coordinates legacyHighlight)\<bar> \<le> 2 * width exampleViewport
   \<and> \<bar>endX (coordinates legacyHighlight)\<bar> \<le> 2 * width exampleViewport
   \<and> \<bar>startY (coordinates legacyHighlight)\<bar> \<le> 2 * height exampleViewport
   \<and> \<bar>endY (coordinates legacyHighlight)\<bar> \<le> 2 * height exampleViewport"
    by (simp add: legacyHighlight_def exampleViewport_def)
  have n: "\<not> areCoordinatesNormalized legacyHighlight (Some exampleViewport)"
    by (simp add: areCoordinatesNormalized_def legacyHighlight_def)
  show ?thesis
    using migrate_idempotent_within_range [of "Some exampleViewport" "\<lambda>_. legacyHighlight" 0] h n
    by simp
qed

text \<open>
  C9. \<^verbatim>\<open>migratePixelToNormalized\<close> returns the reference it was given, and the heap
  after the call is the heap before it with at most the \<open>coordinates\<close> and \<open>path\<close> fields
  of that one record rewritten: id, type, color, page, content and timestamp keep their
  values, and no other record is touched.
\<close>

theorem migratePixelToNormalized_frame:
  "\<exists>c p. migratePixelToNormalized r viewport h
          = (r, h(r := (h r)\<lparr>coordinates := c, path := p\<rparr>))"
proof (intro exI)
  show "migratePixelToNormalized r viewport h =
      (r, h(r := (h r)\<lparr>coordinates := coordinates (migrateFields (h r) viewport),
                         path := path (migrateFields (h r) viewport)\<rparr>))"
    unfolding migratePixelToNormalized_def
    using migrateFields_only_coordinates_and_path [of "h r" viewport] by simp
qed

section \<open>Segment distance\<close>

text \<open>
  C10. \<^verbatim>\<open>distanceToLineSegment\<close> has a real result for all real inputs: it never divides
  by zero, because the only division is by the squared length and is reached only when
  that is not zero. When the two endpoints coincide the squared length is zero, the
  division is skipped, and the result is the Euclidean distance from the query point to
  that endpoint.
\<close>

theorem distanceToLineSegment_degenerate:
  "(\<exists>d. distanceToLineSegment px py x1 y1 x2 y2 = Some d)
   \<and> distanceToLineSegment px py x1 y1 x1 y1 = Some (sqrt ((px - x1)\<^sup>2 + (py - y1)\<^sup>2))"
  by (simp add: distanceToLineSegment_def jsDivide_def power2_eq_square Let_def)

lemma lenSq_zero_iff: "(C::real) * C + D * D = 0 \<longleftrightarrow> C = 0 \<and> D = 0"
  by (simp add: sum_squares_eq_zero_iff)

text \<open>The code computes the clamped-projection distance of the specification.\<close>

lemma distanceToLineSegment_clamped:
  "distanceToLineSegment px py x1 y1 x2 y2
   = Some (clampedProjectionDistance px py x1 y1 x2 y2)"
proof (cases "(x2 - x1) * (x2 - x1) + (y2 - y1) * (y2 - y1) = 0")
  case True
  then have "x2 = x1" "y2 = y1" by (simp_all add: lenSq_zero_iff)
  then show ?thesis
    by (simp add: distanceToLineSegment_def clampedProjectionDistance_def power2_eq_square Let_def)
next
  case False
  then show ?thesis
    by (simp add: distanceToLineSegment_def jsDivide_def clampedProjectionDistance_def
        power2_eq_square Let_def max_def min_def)
qed

text \<open>
  It is the distance to the segment: the distance to some point of the segment, and no
  point of the segment is closer.
\<close>

lemma quadratic_difference:
  fixes A B C D t u s :: real
  assumes "A * C + B * D = s * (C * C + D * D)"
  shows "((A - t * C)\<^sup>2 + (B - t * D)\<^sup>2) - ((A - u * C)\<^sup>2 + (B - u * D)\<^sup>2)
         = (C * C + D * D) * ((t - u) * (t + u - 2 * s))"
proof -
  have "((A - t * C)\<^sup>2 + (B - t * D)\<^sup>2) - ((A - u * C)\<^sup>2 + (B - u * D)\<^sup>2)
        = (t\<^sup>2 - u\<^sup>2) * (C * C + D * D) - 2 * (t - u) * (A * C + B * D)"
    by (simp add: power2_eq_square algebra_simps)
  also have "\<dots> = (t\<^sup>2 - u\<^sup>2) * (C * C + D * D) - 2 * (t - u) * (s * (C * C + D * D))"
    by (simp only: assms)
  also have "\<dots> = (C * C + D * D) * ((t - u) * (t + u - 2 * s))"
    by (simp add: power2_eq_square algebra_simps)
  finally show ?thesis .
qed

lemma clamped_parameter_least:
  fixes A B C D t :: real
  assumes t: "0 \<le> t" "t \<le> 1"
  defines "s \<equiv> (A * C + B * D) / (C * C + D * D)"
  defines "u \<equiv> max 0 (min 1 s)"
  shows "(A - u * C)\<^sup>2 + (B - u * D)\<^sup>2 \<le> (A - t * C)\<^sup>2 + (B - t * D)\<^sup>2"
proof (cases "C * C + D * D = 0")
  case True
  then have "C = 0" "D = 0" by (simp_all add: lenSq_zero_iff)
  then show ?thesis by simp
next
  case False
  have pos: "0 \<le> C * C + D * D" by simp
  have dot: "A * C + B * D = s * (C * C + D * D)" using False by (simp add: s_def)
  have sign: "0 \<le> (t - u) * (t + u - 2 * s)"
  proof -
    consider "s < 0" | "1 < s" | "0 \<le> s" "s \<le> 1" by linarith
    then show ?thesis
    proof cases
      case 1
      then have "u = 0" by (simp add: u_def)
      with 1 t show ?thesis by (simp add: mult_nonneg_nonneg)
    next
      case 2
      then have "u = 1" by (simp add: u_def)
      with 2 t show ?thesis by (simp add: mult_nonpos_nonpos)
    next
      case 3
      then have "u = s" by (simp add: u_def)
      then have "(t - u) * (t + u - 2 * s) = (t - s) * (t - s)" by simp
      then show ?thesis by simp
    qed
  qed
  have "0 \<le> (C * C + D * D) * ((t - u) * (t + u - 2 * s))"
    using pos sign by (rule mult_nonneg_nonneg)
  then show ?thesis using quadratic_difference [OF dot, of t u] by linarith
qed

lemma clampedProjectionDistance_least:
  assumes "0 \<le> t" "t \<le> 1"
  shows "clampedProjectionDistance px py x1 y1 x2 y2
         \<le> sqrt ((px - (x1 + t * (x2 - x1)))\<^sup>2 + (py - (y1 + t * (y2 - y1)))\<^sup>2)"
proof -
  have "(px - x1 - max 0 (min 1 (((px - x1) * (x2 - x1) + (py - y1) * (y2 - y1))
            / ((x2 - x1) * (x2 - x1) + (y2 - y1) * (y2 - y1)))) * (x2 - x1))\<^sup>2
      + (py - y1 - max 0 (min 1 (((px - x1) * (x2 - x1) + (py - y1) * (y2 - y1))
            / ((x2 - x1) * (x2 - x1) + (y2 - y1) * (y2 - y1)))) * (y2 - y1))\<^sup>2
     \<le> (px - x1 - t * (x2 - x1))\<^sup>2 + (py - y1 - t * (y2 - y1))\<^sup>2"
    by (rule clamped_parameter_least [OF assms])
  then show ?thesis
    by (simp add: clampedProjectionDistance_def Let_def power2_eq_square [of "x2 - x1"]
        power2_eq_square [of "y2 - y1"] diff_diff_eq)
qed

lemma clampedProjectionDistance_attained:
  "\<exists>t. 0 \<le> t \<and> t \<le> 1 \<and> clampedProjectionDistance px py x1 y1 x2 y2
         = sqrt ((px - (x1 + t * (x2 - x1)))\<^sup>2 + (py - (y1 + t * (y2 - y1)))\<^sup>2)"
  unfolding clampedProjectionDistance_def Let_def
  by (rule exI [of _ "max 0 (min 1 (((px - x1) * (x2 - x1) + (py - y1) * (y2 - y1))
                / ((x2 - x1)\<^sup>2 + (y2 - y1)\<^sup>2)))"]) simp

section \<open>Geometry tests by type\<close>

lemma hitTest_rectangle: "isRectangle a \<Longrightarrow> hitTest a x y v = insideDeviceBox a v x y"
  by (auto simp add: isRectangle_def hitTest_def insideDeviceBox_def Let_def)

lemma hitTest_note:
  "ann_type a = ''note'' \<Longrightarrow>
   hitTest a x y v =
     (startX (coordinates a) * width v \<le> x \<and> x \<le> startX (coordinates a) * width v + 24
      \<and> startY (coordinates a) * height v \<le> y \<and> y \<le> startY (coordinates a) * height v + 24)"
  by (auto simp add: hitTest_def normalizedToCanvas_def Let_def)

lemma hitTest_draw:
  assumes "ann_type a = ''draw''"
  shows "hitTest a x y v = nearPolyline (transformedPolyline a v) x y"
proof (cases "path a")
  case None
  then show ?thesis using assms
    by (simp add: hitTest_def transformedPolyline_def nearPolyline_def Let_def)
next
  case (Some ps)
  have "hitTest a x y v \<longleftrightarrow>
        (\<exists>j<length ps - 1. clampedProjectionDistance x y
             (pt_x (normalizedToCanvas (pt_x (ps ! j)) (pt_y (ps ! j)) v))
             (pt_y (normalizedToCanvas (pt_x (ps ! j)) (pt_y (ps ! j)) v))
             (pt_x (normalizedToCanvas (pt_x (ps ! (j + 1))) (pt_y (ps ! (j + 1))) v))
             (pt_y (normalizedToCanvas (pt_x (ps ! (j + 1))) (pt_y (ps ! (j + 1))) v)) \<le> 10)"
    using assms Some
    by (auto simp add: hitTest_def Let_def list_ex_iff distanceToLineSegment_clamped)
  also have "\<dots> \<longleftrightarrow> nearPolyline (transformedPolyline a v) x y"
    using Some
    by (auto simp add: nearPolyline_def transformedPolyline_def less_diff_conv)
  finally show ?thesis .
qed

section \<open>The hit loop\<close>

lemma hitLoop_step:
  "hitLoop (Suc i) refs x y (Some v) h =
     (if migratedHit h (refs ! i) x y v
      then (Returned (Some (refs ! i)), h(refs ! i := migrateFields (h (refs ! i)) (Some v)))
      else hitLoop i refs x y (Some v) (h(refs ! i := migrateFields (h (refs ! i)) (Some v))))"
  by (simp add: migratedHit_def migratePixelToNormalized_def Let_def)

lemma hitLoop_none:
  assumes "n \<le> length refs" and "distinct refs"
    and "\<forall>k<n. \<not> migratedHit h (refs ! k) x y v"
  shows "fst (hitLoop n refs x y (Some v) h) = Returned None"
  using assms
proof (induction n arbitrary: h)
  case 0
  then show ?case by simp
next
  case (Suc n)
  let ?h = "h(refs ! n := migrateFields (h (refs ! n)) (Some v))"
  have same: "?h (refs ! k) = h (refs ! k)" if "k < n" for k
    using that Suc.prems(1,2) by (simp add: nth_eq_iff_index_eq)
  have nohit: "\<forall>k<n. \<not> migratedHit ?h (refs ! k) x y v"
    using Suc.prems(3) same by (simp add: migratedHit_def)
  have le: "n \<le> length refs" using Suc.prems(1) by simp
  have "fst (hitLoop n refs x y (Some v) ?h) = Returned None"
    by (rule Suc.IH [OF le Suc.prems(2) nohit])
  moreover have "\<not> migratedHit h (refs ! n) x y v" using Suc.prems(3) by simp
  ultimately show ?case by (simp only: hitLoop_step if_False)
qed

lemma hitLoop_topmost:
  assumes "n \<le> length refs" and "distinct refs" and "j < n"
    and "migratedHit h (refs ! j) x y v"
    and "\<forall>k. j < k \<and> k < n \<longrightarrow> \<not> migratedHit h (refs ! k) x y v"
  shows "fst (hitLoop n refs x y (Some v) h) = Returned (Some (refs ! j))"
  using assms
proof (induction n arbitrary: h)
  case 0
  then show ?case by simp
next
  case (Suc n)
  let ?h = "h(refs ! n := migrateFields (h (refs ! n)) (Some v))"
  show ?case
  proof (cases "j = n")
    case True
    with Suc.prems(4) show ?thesis by (simp only: hitLoop_step if_True fst_conv)
  next
    case False
    with Suc.prems(3) have jn: "j < n" by simp
    have same: "?h (refs ! k) = h (refs ! k)" if "k < n" for k
      using that Suc.prems(1,2) by (simp add: nth_eq_iff_index_eq)
    have a: "migratedHit ?h (refs ! j) x y v"
      using Suc.prems(4) same [OF jn] by (simp add: migratedHit_def)
    have b: "\<forall>k. j < k \<and> k < n \<longrightarrow> \<not> migratedHit ?h (refs ! k) x y v"
      using Suc.prems(5) same by (simp add: migratedHit_def)
    have le: "n \<le> length refs" using Suc.prems(1) by simp
    have "fst (hitLoop n refs x y (Some v) ?h) = Returned (Some (refs ! j))"
      by (rule Suc.IH [OF le Suc.prems(2) jn a b])
    moreover have "\<not> migratedHit h (refs ! n) x y v" using Suc.prems(5) jn by simp
    ultimately show ?thesis by (simp only: hitLoop_step if_False)
  qed
qed

lemma hitLoop_greatest:
  assumes "n \<le> length refs" and "distinct refs"
    and "\<exists>j<n. migratedHit h (refs ! j) x y v"
  shows "\<exists>m<n. migratedHit h (refs ! m) x y v
           \<and> (\<forall>k. m < k \<and> k < n \<longrightarrow> \<not> migratedHit h (refs ! k) x y v)
           \<and> fst (hitLoop n refs x y (Some v) h) = Returned (Some (refs ! m))"
proof -
  define P where "P j \<longleftrightarrow> j < n \<and> migratedHit h (refs ! j) x y v" for j
  from assms(3) have ex: "\<exists>j. P j" by (auto simp add: P_def)
  have bound: "\<forall>j. P j \<longrightarrow> j \<le> n" by (simp add: P_def)
  define m where "m = (GREATEST j. P j)"
  have Pm: "P m" unfolding m_def using ex bound by (metis GreatestI_ex_nat)
  have greatest: "\<And>k. P k \<Longrightarrow> k \<le> m" unfolding m_def using bound by (metis Greatest_le_nat)
  have later: "\<forall>k. m < k \<and> k < n \<longrightarrow> \<not> migratedHit h (refs ! k) x y v"
    using greatest by (fastforce simp add: P_def)
  from Pm have mn: "m < n" and hit: "migratedHit h (refs ! m) x y v" by (simp_all add: P_def)
  have "fst (hitLoop n refs x y (Some v) h) = Returned (Some (refs ! m))"
    by (rule hitLoop_topmost [OF assms(1,2) mn hit later])
  with mn hit later show ?thesis by blast
qed

lemma hitLoop_found:
  assumes "n \<le> length refs" and "distinct refs"
    and "fst (hitLoop n refs x y (Some v) h) = Returned (Some r)"
  shows "\<exists>j<n. r = refs ! j \<and> migratedHit h (refs ! j) x y v
           \<and> (\<forall>k. j < k \<and> k < n \<longrightarrow> \<not> migratedHit h (refs ! k) x y v)"
proof (cases "\<exists>j<n. migratedHit h (refs ! j) x y v")
  case False
  then have "fst (hitLoop n refs x y (Some v) h) = Returned None"
    using hitLoop_none [OF assms(1,2)] by blast
  with assms(3) show ?thesis by simp
next
  case True
  from hitLoop_greatest [OF assms(1,2) True] assms(3) show ?thesis by auto
qed

section \<open>Finding the annotation at a point\<close>

lemma getAnnotationAtPoint_fst:
  "fst (getAnnotationAtPoint pageNum x y viewport st) =
     fst (hitLoop (length (pageAnnotations st pageNum)) (pageAnnotations st pageNum) x y
            viewport (heap st))"
  by (simp add: getAnnotationAtPoint_def Let_def split: prod.splits)

lemma later_records_conv:
  "(\<forall>r\<in>set (drop (Suc j) refs). P r) \<longleftrightarrow> (\<forall>k. j < k \<and> k < length refs \<longrightarrow> P (refs ! k))"
proof
  assume a: "\<forall>r\<in>set (drop (Suc j) refs). P r"
  show "\<forall>k. j < k \<and> k < length refs \<longrightarrow> P (refs ! k)"
  proof (intro allI impI)
    fix k
    assume k: "j < k \<and> k < length refs"
    then have "k - Suc j < length (drop (Suc j) refs)" by auto
    then have "drop (Suc j) refs ! (k - Suc j) \<in> set (drop (Suc j) refs)" by (rule nth_mem)
    moreover have "drop (Suc j) refs ! (k - Suc j) = refs ! k" using k by simp
    ultimately show "P (refs ! k)" using a by auto
  qed
next
  assume a: "\<forall>k. j < k \<and> k < length refs \<longrightarrow> P (refs ! k)"
  show "\<forall>r\<in>set (drop (Suc j) refs). P r"
  proof
    fix r
    assume "r \<in> set (drop (Suc j) refs)"
    then obtain i where i: "i < length (drop (Suc j) refs)" "drop (Suc j) refs ! i = r"
      by (auto simp add: in_set_conv_nth)
    then have "refs ! (Suc j + i) = r" "j < Suc j + i" "Suc j + i < length refs" by auto
    with a show "P r" by blast
  qed
qed

lemma getAnnotationAtPoint_topmost:
  assumes "pageAnnotations st pageNum = refs" and "distinct refs" and "j < length refs"
    and "migratedHit (heap st) (refs ! j) x y v"
    and "\<forall>r'\<in>set (drop (Suc j) refs). \<not> migratedHit (heap st) r' x y v"
  shows "fst (getAnnotationAtPoint pageNum x y (Some v) st) = Returned (Some (refs ! j))"
proof -
  have later: "\<forall>k. j < k \<and> k < length refs \<longrightarrow> \<not> migratedHit (heap st) (refs ! k) x y v"
    using assms(5) by (simp only: later_records_conv)
  show ?thesis
    unfolding getAnnotationAtPoint_fst assms(1)
    by (rule hitLoop_topmost [OF order_refl assms(2,3,4) later])
qed

lemma getAnnotationAtPoint_found:
  assumes "pageAnnotations st pageNum = refs" and "distinct refs"
    and "fst (getAnnotationAtPoint pageNum x y (Some v) st) = Returned (Some r)"
  shows "\<exists>j<length refs. r = refs ! j \<and> migratedHit (heap st) (refs ! j) x y v
           \<and> (\<forall>r'\<in>set (drop (Suc j) refs). \<not> migratedHit (heap st) r' x y v)"
proof -
  have "fst (hitLoop (length refs) refs x y (Some v) (heap st)) = Returned (Some r)"
    using assms(3) by (simp add: getAnnotationAtPoint_fst assms(1))
  from hitLoop_found [OF order_refl assms(2) this]
  show ?thesis by (simp only: later_records_conv)
qed

lemma getAnnotationAtPoint_none:
  assumes "pageAnnotations st pageNum = refs" and "distinct refs"
    and "\<forall>r'\<in>set refs. \<not> migratedHit (heap st) r' x y v"
  shows "fst (getAnnotationAtPoint pageNum x y (Some v) st) = Returned None"
proof -
  have "\<forall>k<length refs. \<not> migratedHit (heap st) (refs ! k) x y v"
    using assms(3) by (simp only: all_set_conv_all_nth)
  then show ?thesis
    unfolding getAnnotationAtPoint_fst assms(1)
    by (rule hitLoop_none [OF order_refl assms(2)])
qed

lemma getAnnotationAtPoint_not_earlier:
  assumes "pageAnnotations st pageNum = refs" and "distinct refs" and "j < length refs"
    and "migratedHit (heap st) (refs ! j) x y v"
  shows "\<exists>m. j \<le> m \<and> m < length refs
           \<and> fst (getAnnotationAtPoint pageNum x y (Some v) st) = Returned (Some (refs ! m))"
proof -
  have "\<exists>j<length refs. migratedHit (heap st) (refs ! j) x y v" using assms(3,4) by blast
  from hitLoop_greatest [OF order_refl assms(2) this]
  obtain m where m: "m < length refs"
    "\<forall>k. m < k \<and> k < length refs \<longrightarrow> \<not> migratedHit (heap st) (refs ! k) x y v"
    "fst (hitLoop (length refs) refs x y (Some v) (heap st)) = Returned (Some (refs ! m))"
    by blast
  have "j \<le> m"
  proof (rule ccontr)
    assume "\<not> j \<le> m"
    then have "m < j \<and> j < length refs" using assms(3) by simp
    with m(2) assms(4) show False by blast
  qed
  with m(1,3) show ?thesis by (auto simp add: getAnnotationAtPoint_fst assms(1))
qed

lemma getAnnotationAtPoint_greatest:
  assumes "pageAnnotations st pageNum = refs" and "distinct refs"
    and "\<exists>r'\<in>set refs. migratedHit (heap st) r' x y v"
  shows "\<exists>m<length refs. migratedHit (heap st) (refs ! m) x y v
           \<and> (\<forall>r'\<in>set (drop (Suc m) refs). \<not> migratedHit (heap st) r' x y v)
           \<and> fst (getAnnotationAtPoint pageNum x y (Some v) st) = Returned (Some (refs ! m))"
proof -
  have "\<exists>j<length refs. migratedHit (heap st) (refs ! j) x y v"
    using assms(3) by (auto simp add: in_set_conv_nth)
  from hitLoop_greatest [OF order_refl assms(2) this]
  show ?thesis by (simp only: later_records_conv getAnnotationAtPoint_fst assms(1))
qed

lemma getAnnotationAtPoint_index_iff:
  assumes "pageAnnotations st pageNum = refs" and "distinct refs" and "j < length refs"
    and "\<forall>r'\<in>set (drop (Suc j) refs). \<not> migratedHit (heap st) r' x y v"
  shows "fst (getAnnotationAtPoint pageNum x y (Some v) st) = Returned (Some (refs ! j))
         \<longleftrightarrow> migratedHit (heap st) (refs ! j) x y v"
proof
  assume "migratedHit (heap st) (refs ! j) x y v"
  then show "fst (getAnnotationAtPoint pageNum x y (Some v) st) = Returned (Some (refs ! j))"
    by (rule getAnnotationAtPoint_topmost [OF assms(1,2,3) _ assms(4)])
next
  assume "fst (getAnnotationAtPoint pageNum x y (Some v) st) = Returned (Some (refs ! j))"
  from getAnnotationAtPoint_found [OF assms(1,2) this]
  obtain i where "i < length refs" "refs ! j = refs ! i" "migratedHit (heap st) (refs ! i) x y v"
    by blast
  then show "migratedHit (heap st) (refs ! j) x y v" by simp
qed

text \<open>
  C3. On a page whose array holds distinct records, the hit test runs over the array
  from the last inserted record to the first and returns the first record that matches:
  whenever some record of the page matches, the matching record with the greatest
  position is returned.
  For two rectangle annotations at positions \<open>i < j\<close> whose device boxes both contain the
  query point: the earlier one is never returned, a record at position \<open>j\<close> or later is
  returned, and it is the later-inserted of the two whenever nothing inserted after it
  matches. Whatever is returned is the match with the greatest position. If no record
  of the page matches (in particular on an empty page) the result is \<^verbatim>\<open>null\<close>.
\<close>

theorem getAnnotationAtPoint_topmost_wins:
  assumes "pageAnnotations st pageNum = refs" and "distinct refs"
  shows "(i < j \<and> j < length refs
           \<and> isRectangle (heap st (refs ! i)) \<and> isRectangle (heap st (refs ! j))
           \<and> insideDeviceBox (migrateFields (heap st (refs ! i)) (Some v)) v x y
           \<and> insideDeviceBox (migrateFields (heap st (refs ! j)) (Some v)) v x y
          \<longrightarrow> fst (getAnnotationAtPoint pageNum x y (Some v) st) \<noteq> Returned (Some (refs ! i))
              \<and> (\<exists>m. j \<le> m \<and> m < length refs
                    \<and> fst (getAnnotationAtPoint pageNum x y (Some v) st)
                        = Returned (Some (refs ! m)))
              \<and> ((\<forall>r'\<in>set (drop (Suc j) refs). \<not> migratedHit (heap st) r' x y v)
                  \<longrightarrow> fst (getAnnotationAtPoint pageNum x y (Some v) st)
                        = Returned (Some (refs ! j))))
       \<and> (fst (getAnnotationAtPoint pageNum x y (Some v) st) = Returned (Some r)
          \<longrightarrow> (\<exists>j<length refs. r = refs ! j \<and> migratedHit (heap st) (refs ! j) x y v
                \<and> (\<forall>r'\<in>set (drop (Suc j) refs). \<not> migratedHit (heap st) r' x y v)))
       \<and> ((\<exists>r'\<in>set refs. migratedHit (heap st) r' x y v)
          \<longrightarrow> (\<exists>m<length refs. migratedHit (heap st) (refs ! m) x y v
                \<and> (\<forall>r'\<in>set (drop (Suc m) refs). \<not> migratedHit (heap st) r' x y v)
                \<and> fst (getAnnotationAtPoint pageNum x y (Some v) st)
                    = Returned (Some (refs ! m))))
       \<and> ((\<forall>r'\<in>set refs. \<not> migratedHit (heap st) r' x y v)
          \<longrightarrow> fst (getAnnotationAtPoint pageNum x y (Some v) st) = Returned None)"
proof (intro conjI impI)
  assume h: "i < j \<and> j < length refs
           \<and> isRectangle (heap st (refs ! i)) \<and> isRectangle (heap st (refs ! j))
           \<and> insideDeviceBox (migrateFields (heap st (refs ! i)) (Some v)) v x y
           \<and> insideDeviceBox (migrateFields (heap st (refs ! j)) (Some v)) v x y"
  then have "isRectangle (migrateFields (heap st (refs ! j)) (Some v))"
    by (simp add: isRectangle_def)
  with h have hit: "migratedHit (heap st) (refs ! j) x y v"
    by (simp add: migratedHit_def hitTest_rectangle)
  from h have ij: "i < j" and j: "j < length refs" by simp_all
  from getAnnotationAtPoint_not_earlier [OF assms j hit]
  obtain m where m: "j \<le> m" "m < length refs"
    "fst (getAnnotationAtPoint pageNum x y (Some v) st) = Returned (Some (refs ! m))"
    by blast
  then show "\<exists>m. j \<le> m \<and> m < length refs
      \<and> fst (getAnnotationAtPoint pageNum x y (Some v) st) = Returned (Some (refs ! m))"
    by blast
  have "refs ! m \<noteq> refs ! i"
    using assms(2) m(1,2) ij j by (simp add: nth_eq_iff_index_eq)
  with m(3) show "fst (getAnnotationAtPoint pageNum x y (Some v) st)
      \<noteq> Returned (Some (refs ! i))"
    by simp
  assume "\<forall>r'\<in>set (drop (Suc j) refs). \<not> migratedHit (heap st) r' x y v"
  then show "fst (getAnnotationAtPoint pageNum x y (Some v) st) = Returned (Some (refs ! j))"
    by (rule getAnnotationAtPoint_topmost [OF assms j hit])
next
  assume "fst (getAnnotationAtPoint pageNum x y (Some v) st) = Returned (Some r)"
  then show "\<exists>j<length refs. r = refs ! j \<and> migratedHit (heap st) (refs ! j) x y v
                \<and> (\<forall>r'\<in>set (drop (Suc j) refs). \<not> migratedHit (heap st) r' x y v)"
    by (rule getAnnotationAtPoint_found [OF assms])
next
  assume "\<exists>r'\<in>set refs. migratedHit (heap st) r' x y v"
  then show "\<exists>m<length refs. migratedHit (heap st) (refs ! m) x y v
                \<and> (\<forall>r'\<in>set (drop (Suc m) refs). \<not> migratedHit (heap st) r' x y v)
                \<and> fst (getAnnotationAtPoint pageNum x y (Some v) st)
                    = Returned (Some (refs ! m))"
    by (rule getAnnotationAtPoint_greatest [OF assms])
next
  assume "\<forall>r'\<in>set refs. \<not> migratedHit (heap st) r' x y v"
  then show "fst (getAnnotationAtPoint pageNum x y (Some v) st) = Returned None"
    by (rule getAnnotationAtPoint_none [OF assms])
qed

theorem getAnnotationAtPoint_topmost_wins_witness:
  "pageAnnotations exampleManager 1 = [0, 1] \<and> distinct [0, 1 :: nat]
   \<and> isRectangle (heap exampleManager 0) \<and> isRectangle (heap exampleManager 1)
   \<and> insideDeviceBox (migrateFields (heap exampleManager 0) (Some exampleViewport))
        exampleViewport 250 120
   \<and> insideDeviceBox (migrateFields (heap exampleManager 1) (Some exampleViewport))
        exampleViewport 250 120
   \<and> fst (getAnnotationAtPoint 1 250 120 (Some exampleViewport) exampleManager)
       = Returned (Some 1)
   \<and> migratedHit (heap exampleManager) 0 150 120 exampleViewport
   \<and> \<not> migratedHit (heap exampleManager) 1 150 120 exampleViewport
   \<and> fst (getAnnotationAtPoint 1 150 120 (Some exampleViewport) exampleManager)
       = Returned (Some 0)
   \<and> \<not> migratedHit (heap exampleManager) 0 50 50 exampleViewport
   \<and> \<not> migratedHit (heap exampleManager) 1 50 50 exampleViewport
   \<and> fst (getAnnotationAtPoint 1 50 50 (Some exampleViewport) exampleManager)
       = Returned None"
proof -
  have p: "pageAnnotations exampleManager 1 = [0, 1]"
    by (simp add: pageAnnotations_def exampleManager_def)
  have d: "distinct [0, 1 :: nat]" by simp
  have r0: "isRectangle (heap exampleManager 0)" and r1: "isRectangle (heap exampleManager 1)"
    by (simp_all add: isRectangle_def example_defs)
  have b0: "insideDeviceBox (migrateFields (heap exampleManager 0) (Some exampleViewport))
        exampleViewport 250 120"
    by (simp add: insideDeviceBox_def migrateFields_def areCoordinatesNormalized_def
        normalizedToCanvas_def example_defs Let_def)
  have b1: "insideDeviceBox (migrateFields (heap exampleManager 1) (Some exampleViewport))
        exampleViewport 250 120"
    by (simp add: insideDeviceBox_def migrateFields_def areCoordinatesNormalized_def
        normalizedToCanvas_def example_defs Let_def)
  have n: "\<forall>r'\<in>set [0, 1]. \<not> migratedHit (heap exampleManager) r' 50 50 exampleViewport"
    by (simp add: migratedHit_def migrateFields_def areCoordinatesNormalized_def hitTest_def
        normalizedToCanvas_def example_defs)
  have "fst (getAnnotationAtPoint 1 250 120 (Some exampleViewport) exampleManager)
       = Returned (Some ([0, 1] ! 1))"
    using getAnnotationAtPoint_topmost_wins [OF p d, of 0 1 exampleViewport 250 120]
      r0 r1 b0 b1 by simp
  moreover have "fst (getAnnotationAtPoint 1 50 50 (Some exampleViewport) exampleManager)
       = Returned None"
    using getAnnotationAtPoint_topmost_wins [OF p d, of 0 1 exampleViewport 50 50] n by simp
  moreover have h0: "migratedHit (heap exampleManager) 0 150 120 exampleViewport"
    and h1: "\<not> migratedHit (heap exampleManager) 1 150 120 exampleViewport"
    by (simp_all add: migratedHit_def migrateFields_def areCoordinatesNormalized_def hitTest_def
        normalizedToCanvas_def example_defs)
  moreover have "fst (getAnnotationAtPoint 1 150 120 (Some exampleViewport) exampleManager)
       = Returned (Some 0)"
  proof -
    have "\<exists>r'\<in>set [0, 1]. migratedHit (heap exampleManager) r' 150 120 exampleViewport"
      using h0 by simp
    with getAnnotationAtPoint_topmost_wins [OF p d, of 0 1 exampleViewport 150 120]
    obtain m where m: "m < length [0, 1 :: nat]"
      "migratedHit (heap exampleManager) ([0, 1] ! m) 150 120 exampleViewport"
      "fst (getAnnotationAtPoint 1 150 120 (Some exampleViewport) exampleManager)
         = Returned (Some ([0, 1] ! m))"
      by blast
    from m(1) have "m = 0 \<or> m = 1" by auto
    with m(2) h1 have "m = 0" by auto
    with m(3) show ?thesis by simp
  qed
  ultimately show ?thesis using p d r0 r1 b0 b1 n by simp
qed

text \<open>
  C4. For a draw annotation at position \<open>j\<close> of its page, with no record inserted after
  it matching the query point, the hit test returns it if and only if some segment of
  its polyline, transformed to device space, is within 10 pixels of the point. The
  segment distance is the clamped-projection distance, which the code computes
  (\<open>distanceToLineSegment_clamped\<close>) and which is the least distance to a point of the
  segment (\<open>clampedProjectionDistance_least\<close>, \<open>clampedProjectionDistance_attained\<close>).
\<close>

theorem draw_hit_iff_near_polyline:
  assumes "pageAnnotations st pageNum = refs" and "distinct refs" and "j < length refs"
    and "ann_type (heap st (refs ! j)) = ''draw''"
    and "\<forall>r'\<in>set (drop (Suc j) refs). \<not> migratedHit (heap st) r' x y v"
  shows "fst (getAnnotationAtPoint pageNum x y (Some v) st) = Returned (Some (refs ! j))
         \<longleftrightarrow> nearPolyline
               (transformedPolyline (migrateFields (heap st (refs ! j)) (Some v)) v) x y"
  using getAnnotationAtPoint_index_iff [OF assms(1,2,3,5)] assms(4)
  by (simp add: migratedHit_def hitTest_draw)

theorem draw_hit_iff_near_polyline_witness:
  "pageAnnotations exampleManager 2 = [3, 2] \<and> distinct [3, 2 :: nat]
   \<and> ann_type (heap exampleManager 3) = ''draw''
   \<and> \<not> migratedHit (heap exampleManager) 2 300 500 exampleViewport
   \<and> fst (getAnnotationAtPoint 2 300 500 (Some exampleViewport) exampleManager)
       = Returned (Some 3)"
proof -
  have p: "pageAnnotations exampleManager 2 = [3, 2]"
    by (simp add: pageAnnotations_def exampleManager_def)
  have d: "distinct [3, 2 :: nat]" by simp
  have j: "0 < length [3, 2 :: nat]" by simp
  have t: "ann_type (heap exampleManager ([3, 2] ! 0)) = ''draw''"
    by (simp add: example_defs)
  have l: "\<forall>r'\<in>set (drop (Suc 0) [3, 2]).
             \<not> migratedHit (heap exampleManager) r' 300 500 exampleViewport"
    by (simp add: migratedHit_def migrateFields_def areCoordinatesNormalized_def hitTest_def
        normalizedToCanvas_def example_defs)
  have m: "migrateFields (heap exampleManager ([3, 2] ! 0)) (Some exampleViewport) = exampleDraw"
    by (simp add: migrateFields_def areCoordinatesNormalized_def example_defs)
  have "clampedProjectionDistance 300 500 100 900 500 100 \<le> 10"
    by (simp add: clampedProjectionDistance_def Let_def)
  then have "nearPolyline (transformedPolyline exampleDraw exampleViewport) 300 500"
    unfolding nearPolyline_def
    by (intro exI [of _ 0])
      (simp add: transformedPolyline_def normalizedToCanvas_def exampleDraw_def
        exampleViewport_def)
  then have "fst (getAnnotationAtPoint 2 300 500 (Some exampleViewport) exampleManager)
       = Returned (Some 3)"
    using draw_hit_iff_near_polyline [OF p d j t l] m by simp
  with p d t l show ?thesis by simp
qed

text \<open>
  C5. For a note annotation at position \<open>j\<close> of its page, with no record inserted after
  it matching the query point, the hit test returns it if and only if the point lies in
  the square of side 24 device pixels whose corner is the transformed
  \<open>(startX, startY)\<close>. The viewport is arbitrary, so the side is 24 at every width,
  height, rotation and scale.
\<close>

theorem note_hit_iff_fixed_square:
  assumes "pageAnnotations st pageNum = refs" and "distinct refs" and "j < length refs"
    and "ann_type (heap st (refs ! j)) = ''note''"
    and "\<forall>r'\<in>set (drop (Suc j) refs). \<not> migratedHit (heap st) r' x y v"
  shows "fst (getAnnotationAtPoint pageNum x y (Some v) st) = Returned (Some (refs ! j))
         \<longleftrightarrow> (let m = migrateFields (heap st (refs ! j)) (Some v);
                 anchorX = startX (coordinates m) * width v;
                 anchorY = startY (coordinates m) * height v
             in anchorX \<le> x \<and> x \<le> anchorX + 24 \<and> anchorY \<le> y \<and> y \<le> anchorY + 24)"
  using getAnnotationAtPoint_index_iff [OF assms(1,2,3,5)] assms(4)
  by (simp add: migratedHit_def hitTest_note Let_def)

theorem note_hit_iff_fixed_square_witness:
  "pageAnnotations exampleManager 2 = [3, 2] \<and> distinct [3, 2 :: nat]
   \<and> ann_type (heap exampleManager 2) = ''note''
   \<and> fst (getAnnotationAtPoint 2 510 524 (Some exampleViewport) exampleManager)
       = Returned (Some 2)
   \<and> fst (getAnnotationAtPoint 2 510 525 (Some exampleViewport) exampleManager)
       \<noteq> Returned (Some 2)"
proof -
  have p: "pageAnnotations exampleManager 2 = [3, 2]"
    by (simp add: pageAnnotations_def exampleManager_def)
  have d: "distinct [3, 2 :: nat]" by simp
  have j: "1 < length [3, 2 :: nat]" by simp
  have t: "ann_type (heap exampleManager ([3, 2] ! 1)) = ''note''"
    by (simp add: example_defs)
  have l: "\<forall>r'\<in>set (drop (Suc 1) [3, 2 :: nat]).
             \<not> migratedHit (heap exampleManager) r' x y exampleViewport" for x y
    by simp
  have m: "migrateFields (heap exampleManager ([3, 2] ! 1)) (Some exampleViewport) = exampleNote"
    by (simp add: migrateFields_def areCoordinatesNormalized_def example_defs)
  have "fst (getAnnotationAtPoint 2 510 524 (Some exampleViewport) exampleManager)
       = Returned (Some 2)"
    using note_hit_iff_fixed_square [OF p d j t l, of 510 524] m
    by (simp add: exampleNote_def exampleViewport_def)
  moreover have "fst (getAnnotationAtPoint 2 510 525 (Some exampleViewport) exampleManager)
       \<noteq> Returned (Some 2)"
    using note_hit_iff_fixed_square [OF p d j t l, of 510 525] m
    by (simp add: exampleNote_def exampleViewport_def)
  ultimately show ?thesis using p d t by simp
qed

section \<open>Creating records\<close>

lemma map_of_push:
  "map_of (map (\<lambda>(k, refs). if k = p then (k, f refs) else (k, refs)) al) q
   = (if q = p then map_option f (map_of al q) else map_of al q)"
  by (induction al) auto

lemma pageAnnotations_ensurePage [simp]:
  "pageAnnotations (ensurePage p st) q = pageAnnotations st q"
  by (auto simp add: pageAnnotations_def ensurePage_def map_add_def split: option.splits)

lemma ensurePage_has: "map_of (annotations (ensurePage p st)) p \<noteq> None"
  by (auto simp add: ensurePage_def map_add_def split: option.splits)

lemma ensurePage_fields [simp]:
  "heap (ensurePage p st) = heap st" "nextRef (ensurePage p st) = nextRef st"
  "notifications (ensurePage p st) = notifications st"
  by (simp_all add: ensurePage_def)

lemma pageAnnotations_push:
  assumes "map_of (annotations st) p \<noteq> None"
  shows "pageAnnotations (pushAnnotation p a st) q
         = (if q = p then pageAnnotations st p @ [nextRef st] else pageAnnotations st q)"
  using assms
  by (auto simp add: pageAnnotations_def pushAnnotation_def Let_def map_of_push)

lemma heap_push [simp]:
  "heap (pushAnnotation p a st) r = (if r = nextRef st then a else heap st r)"
  by (simp add: pushAnnotation_def Let_def)

lemma showNotification_fields [simp]:
  "heap (showNotification m k st) = heap st"
  "annotations (showNotification m k st) = annotations st"
  "nextRef (showNotification m k st) = nextRef st"
  "pageAnnotations (showNotification m k st) q = pageAnnotations st q"
  by (simp_all add: showNotification_def pageAnnotations_def)

lemma fold_boundingBox_ordered:
  fixes b :: boundingBox
  defines "F \<equiv> (\<lambda>point b.
                    \<lparr>minX = min (minX b) (pt_x point), minY = min (minY b) (pt_y point),
                     maxX = max (maxX b) (pt_x point), maxY = max (maxY b) (pt_y point)\<rparr>)"
  assumes "minX b \<le> maxX b" "minY b \<le> maxY b"
  shows "minX (fold F ps b) \<le> maxX (fold F ps b) \<and> minY (fold F ps b) \<le> maxY (fold F ps b)"
  using assms(2,3)
proof (induction ps arbitrary: b)
  case Nil
  then show ?case by simp
next
  case (Cons p ps)
  have "minX (F p b) \<le> maxX (F p b)" "minY (F p b) \<le> maxY (F p b)"
    using Cons.prems by (simp_all add: F_def min_le_iff_disj le_max_iff_disj)
  from Cons.IH [OF this] show ?case by simp
qed

lemma calculateBoundingBox_ordered:
  assumes "calculateBoundingBox p = Some bb"
  shows "minX bb \<le> maxX bb \<and> minY bb \<le> maxY bb"
proof -
  from assms obtain p0 rest where p: "p = Some (p0 # rest)"
    by (auto simp add: calculateBoundingBox_def split: option.splits list.splits)
  have "minX \<lparr>minX = pt_x p0, minY = pt_y p0, maxX = pt_x p0, maxY = pt_y p0\<rparr>
          \<le> maxX \<lparr>minX = pt_x p0, minY = pt_y p0, maxX = pt_x p0, maxY = pt_y p0\<rparr>"
       "minY \<lparr>minX = pt_x p0, minY = pt_y p0, maxX = pt_x p0, maxY = pt_y p0\<rparr>
          \<le> maxY \<lparr>minX = pt_x p0, minY = pt_y p0, maxX = pt_x p0, maxY = pt_y p0\<rparr>"
    by simp_all
  from fold_boundingBox_ordered [OF this, of "p0 # rest"] assms p show ?thesis
    by (simp add: calculateBoundingBox_def)
qed

text \<open>The bounding box is the least and greatest coordinate over all points of the path.\<close>

lemma fold_boundingBox_extremes:
  fixes b :: boundingBox
  defines "F \<equiv> (\<lambda>point b.
                    \<lparr>minX = min (minX b) (pt_x point), minY = min (minY b) (pt_y point),
                     maxX = max (maxX b) (pt_x point), maxY = max (maxY b) (pt_y point)\<rparr>)"
  shows "fold F ps b =
           \<lparr>minX = Min (insert (minX b) (pt_x ` set ps)),
            minY = Min (insert (minY b) (pt_y ` set ps)),
            maxX = Max (insert (maxX b) (pt_x ` set ps)),
            maxY = Max (insert (maxY b) (pt_y ` set ps))\<rparr>"
proof (induction ps arbitrary: b)
  case Nil
  then show ?case by simp
next
  case (Cons p ps)
  have ins: "Min (insert (min a c) S) = Min (insert a (insert c S))"
    "Max (insert (max a c) S) = Max (insert a (insert c S))" if "finite S" for a c :: real and S
    using that by (cases "S = {}"; simp add: min.assoc max.assoc)+
  show ?case
    by (simp add: Cons.IH) (simp add: F_def ins)
qed

lemma calculateBoundingBox_extremes:
  assumes "ps \<noteq> []"
  shows "calculateBoundingBox (Some ps) =
           Some \<lparr>minX = Min (pt_x ` set ps), minY = Min (pt_y ` set ps),
                 maxX = Max (pt_x ` set ps), maxY = Max (pt_y ` set ps)\<rparr>"
proof -
  from assms obtain p0 rest where ps: "ps = p0 # rest" by (cases ps) auto
  show ?thesis
    unfolding ps calculateBoundingBox_def
    by (simp only: option.case list.case fold_boundingBox_extremes) (simp add: insert_absorb2)
qed

text \<open>
  C8. Each creating method appends one fresh record to the page, and that record has
  \<open>startX \<le> endX\<close> and \<open>startY \<le> endY\<close>. \<^verbatim>\<open>createAnnotation\<close> stores the minimum and
  maximum of the two endpoints it is given. \<^verbatim>\<open>createDrawAnnotation\<close> (for a non-empty
  path, the only case in which it creates a record) stores the path and its bounding
  box: the least and the greatest \<open>x\<close> and \<open>y\<close> over all points of the path.
  \<^verbatim>\<open>createNoteAnnotation\<close> stores the start point and the start point plus a width and
  height, which are \<open>0.02\<close> without a viewport and \<open>24 / width\<close>, \<open>24 / height\<close> with one,
  and so non-negative for a viewport with positive dimensions.
\<close>

theorem created_coordinates_ordered:
  "(let st' = createAnnotation pageNum sx sy ex ey tool col newId now st
    in pageAnnotations st' pageNum = pageAnnotations st pageNum @ [nextRef st]
       \<and> coordinates (heap st' (nextRef st))
           = \<lparr>startX = min sx ex, startY = min sy ey, endX = max sx ex, endY = max sy ey\<rparr>
       \<and> coordinatesOrdered (coordinates (heap st' (nextRef st))))
   \<and> (calculateBoundingBox p \<noteq> None \<longrightarrow>
       (let st' = createDrawAnnotation pageNum p col newId now st
        in pageAnnotations st' pageNum = pageAnnotations st pageNum @ [nextRef st]
           \<and> coordinatesOrdered (coordinates (heap st' (nextRef st)))))
   \<and> (ps \<noteq> [] \<longrightarrow>
       (let st' = createDrawAnnotation pageNum (Some ps) col newId now st
        in pageAnnotations st' pageNum = pageAnnotations st pageNum @ [nextRef st]
           \<and> path (heap st' (nextRef st)) = Some ps
           \<and> coordinates (heap st' (nextRef st))
               = \<lparr>startX = Min (pt_x ` set ps), startY = Min (pt_y ` set ps),
                  endX = Max (pt_x ` set ps), endY = Max (pt_y ` set ps)\<rparr>))
   \<and> (let st' = createNoteAnnotation pageNum nx ny e newId now st
      in pageAnnotations st' pageNum = pageAnnotations st pageNum @ [nextRef st]
         \<and> coordinates (heap st' (nextRef st))
             = \<lparr>startX = nx, startY = ny,
                endX = nx + (case layerViewport e of None \<Rightarrow> 0.02 | Some v \<Rightarrow> 24 / width v),
                endY = ny + (case layerViewport e of None \<Rightarrow> 0.02 | Some v \<Rightarrow> 24 / height v)\<rparr>)
   \<and> ((\<forall>v. layerViewport e = Some v \<longrightarrow> 0 < width v \<and> 0 < height v) \<longrightarrow>
       (let st' = createNoteAnnotation pageNum nx ny e newId now st
        in pageAnnotations st' pageNum = pageAnnotations st pageNum @ [nextRef st]
           \<and> coordinatesOrdered (coordinates (heap st' (nextRef st)))))"
proof (intro conjI impI)
  show "let st' = createAnnotation pageNum sx sy ex ey tool col newId now st
    in pageAnnotations st' pageNum = pageAnnotations st pageNum @ [nextRef st]
       \<and> coordinates (heap st' (nextRef st))
           = \<lparr>startX = min sx ex, startY = min sy ey, endX = max sx ex, endY = max sy ey\<rparr>
       \<and> coordinatesOrdered (coordinates (heap st' (nextRef st)))"
    by (simp add: createAnnotation_def Let_def pageAnnotations_push [OF ensurePage_has]
        coordinatesOrdered_def min_le_iff_disj le_max_iff_disj)
next
  assume "calculateBoundingBox p \<noteq> None"
  then obtain bb where bb: "calculateBoundingBox p = Some bb" by blast
  from calculateBoundingBox_ordered [OF bb]
  show "let st' = createDrawAnnotation pageNum p col newId now st
        in pageAnnotations st' pageNum = pageAnnotations st pageNum @ [nextRef st]
           \<and> coordinatesOrdered (coordinates (heap st' (nextRef st)))"
    by (simp add: createDrawAnnotation_def Let_def bb pageAnnotations_push [OF ensurePage_has]
        coordinatesOrdered_def)
next
  assume "ps \<noteq> []"
  then show "let st' = createDrawAnnotation pageNum (Some ps) col newId now st
        in pageAnnotations st' pageNum = pageAnnotations st pageNum @ [nextRef st]
           \<and> path (heap st' (nextRef st)) = Some ps
           \<and> coordinates (heap st' (nextRef st))
               = \<lparr>startX = Min (pt_x ` set ps), startY = Min (pt_y ` set ps),
                  endX = Max (pt_x ` set ps), endY = Max (pt_y ` set ps)\<rparr>"
    by (simp add: createDrawAnnotation_def Let_def calculateBoundingBox_extremes
        pageAnnotations_push [OF ensurePage_has])
next
  show "let st' = createNoteAnnotation pageNum nx ny e newId now st
      in pageAnnotations st' pageNum = pageAnnotations st pageNum @ [nextRef st]
         \<and> coordinates (heap st' (nextRef st))
             = \<lparr>startX = nx, startY = ny,
                endX = nx + (case layerViewport e of None \<Rightarrow> 0.02 | Some v \<Rightarrow> 24 / width v),
                endY = ny + (case layerViewport e of None \<Rightarrow> 0.02 | Some v \<Rightarrow> 24 / height v)\<rparr>"
    by (simp add: createNoteAnnotation_def Let_def pageAnnotations_push [OF ensurePage_has])
next
  assume v: "\<forall>v. layerViewport e = Some v \<longrightarrow> 0 < width v \<and> 0 < height v"
  then have "0 \<le> (case layerViewport e of None \<Rightarrow> 0.02 | Some v \<Rightarrow> 24 / width v)"
       "0 \<le> (case layerViewport e of None \<Rightarrow> 0.02 | Some v \<Rightarrow> 24 / height v)"
    by (auto split: option.splits)
  then show "let st' = createNoteAnnotation pageNum nx ny e newId now st
        in pageAnnotations st' pageNum = pageAnnotations st pageNum @ [nextRef st]
           \<and> coordinatesOrdered (coordinates (heap st' (nextRef st)))"
    by (simp add: createNoteAnnotation_def Let_def pageAnnotations_push [OF ensurePage_has]
        coordinatesOrdered_def)
qed

theorem created_coordinates_ordered_witness:
  "calculateBoundingBox (Some examplePath)
     = Some \<lparr>minX = 0.1, minY = 0.1, maxX = 0.8, maxY = 0.9\<rparr>
   \<and> examplePath \<noteq> []
   \<and> layerViewport exampleEnv = Some exampleViewport
   \<and> 0 < width exampleViewport \<and> 0 < height exampleViewport
   \<and> coordinates (heap
        (createAnnotation 1 0.3 0.15 0.1 0.1 ''highlight'' ''#ffff00'' ''a5'' ''t5'' exampleManager)
        4)
       = \<lparr>startX = 0.1, startY = 0.1, endX = 0.3, endY = 0.15\<rparr>
   \<and> coordinatesOrdered (coordinates (heap
        (createAnnotation 1 0.3 0.15 0.1 0.1 ''highlight'' ''#ffff00'' ''a5'' ''t5'' exampleManager)
        4))
   \<and> coordinates (heap
        (createDrawAnnotation 1 (Some examplePath) ''#ffff00'' ''a5'' ''t5'' exampleManager) 4)
       = \<lparr>startX = 0.1, startY = 0.1, endX = 0.8, endY = 0.9\<rparr>
   \<and> coordinatesOrdered (coordinates (heap
        (createDrawAnnotation 1 (Some examplePath) ''#ffff00'' ''a5'' ''t5'' exampleManager) 4))
   \<and> coordinates (heap
        (createNoteAnnotation 1 0.5 0.5 exampleEnv ''a5'' ''t5'' exampleManager) 4)
       = \<lparr>startX = 0.5, startY = 0.5, endX = 0.524, endY = 0.524\<rparr>
   \<and> coordinatesOrdered (coordinates (heap
        (createNoteAnnotation 1 0.5 0.5 exampleEnv ''a5'' ''t5'' exampleManager) 4))"
proof -
  have b: "calculateBoundingBox (Some examplePath)
     = Some \<lparr>minX = 0.1, minY = 0.1, maxX = 0.8, maxY = 0.9\<rparr>"
    by (simp add: calculateBoundingBox_def examplePath_def)
  have ne: "examplePath \<noteq> []" by (simp add: examplePath_def)
  have mm: "Min (pt_x ` set examplePath) = 0.1" "Min (pt_y ` set examplePath) = 0.1"
    "Max (pt_x ` set examplePath) = 0.8" "Max (pt_y ` set examplePath) = 0.9"
    by (simp_all add: examplePath_def)
  have v: "layerViewport exampleEnv = Some exampleViewport"
    "0 < width exampleViewport" "0 < height exampleViewport"
    by (simp_all add: exampleEnv_def exampleViewport_def)
  have w: "24 / width exampleViewport = 0.024" "24 / height exampleViewport = 0.024"
    by (simp_all add: exampleViewport_def)
  have n: "nextRef exampleManager = 4" by (simp add: exampleManager_def)
  show ?thesis
    using created_coordinates_ordered
            [where pageNum = 1 and sx = "0.3" and sy = "0.15" and ex = "0.1" and ey = "0.1"
              and tool = "''highlight''" and col = "''#ffff00''" and newId = "''a5''"
              and now = "''t5''" and st = exampleManager and p = "Some examplePath"
              and ps = examplePath and e = exampleEnv and nx = "0.5" and ny = "0.5"] b ne v
    by (simp add: Let_def n mm w coordinatesOrdered_def)
qed

section \<open>Releasing a stroke that has fewer than two points\<close>

lemma renderEach_returns: "fst (renderEach rs (Some v) h) = Returned ()"
  by (induction rs arbitrary: h) (simp_all add: renderSingleAnnotation_def Let_def)

lemma renderEach_normalized:
  "\<forall>r\<in>set rs. areCoordinatesNormalized (h r) (Some v) \<Longrightarrow> snd (renderEach rs (Some v) h) = h"
  by (induction rs arbitrary: h)
    (simp_all add: renderSingleAnnotation_def migratePixelToNormalized_def
      migrateFields_normalized Let_def)

text \<open>
  C6. When the pointer is released with the draw tool and the stroke accumulator holds
  fewer than two points (or is absent), the handler returns normally, the page arrays
  of the store are unchanged, no object is allocated and no notification is shown. The
  only effect on the records is that of the re-render the handler always ends with,
  which migrates legacy records of the displayed page; when all of them are already in
  normalized range the heap is unchanged too.
\<close>

theorem degenerate_draw_commit_discarded:
  assumes "g_isDrawing g" and "currentTool st = ''draw''"
    and "case currentStroke st of None \<Rightarrow> True | Some stroke \<Rightarrow> length stroke < 2"
  shows "case mouseup cx cy viewport e newId now (g, st) of
           (res, g', st') \<Rightarrow>
             res = Returned ()
             \<and> annotations st' = annotations st
             \<and> nextRef st' = nextRef st
             \<and> notifications st' = notifications st
             \<and> currentStroke st' = None
             \<and> heap st' = snd (renderEach (pageAnnotations st (currentPage e)) (Some viewport)
                                (heap st))
             \<and> ((\<forall>r\<in>set (pageAnnotations st (currentPage e)).
                    areCoordinatesNormalized (heap st r) (Some viewport))
                 \<longrightarrow> heap st' = heap st)"
proof -
  let ?st1 = "st\<lparr>isDrawing := False, currentStroke := None\<rparr>"
  have page: "pageAnnotations ?st1 (currentPage e) = pageAnnotations st (currentPage e)"
    by (simp add: pageAnnotations_def)
  have m: "mouseup cx cy viewport e newId now (g, st)
        = (case renderAnnotations (currentPage e) (Some viewport) ?st1 of
             (res, st4) \<Rightarrow> (res, g\<lparr>g_endX := cx, g_endY := cy, g_isDrawing := False\<rparr>, st4))"
    using assms by (simp add: mouseup_def Let_def split: option.splits)
  obtain res h' where r:
    "renderEach (pageAnnotations st (currentPage e)) (Some viewport) (heap st) = (res, h')"
    by (cases "renderEach (pageAnnotations st (currentPage e)) (Some viewport) (heap st)")
  have res: "res = Returned ()"
    using renderEach_returns [of "pageAnnotations st (currentPage e)" viewport "heap st"] r
    by simp
  have same: "h' = heap st"
    if "\<forall>r\<in>set (pageAnnotations st (currentPage e)).
          areCoordinatesNormalized (heap st r) (Some viewport)"
    using renderEach_normalized [OF that] r by simp
  show ?thesis
    unfolding m renderAnnotations_def page
    using res same by (simp add: r)
qed

theorem degenerate_draw_commit_discarded_witness:
  "g_isDrawing exampleGesture \<and> currentTool exampleManager = ''draw''
   \<and> currentStroke exampleManager = Some [\<lparr>pt_x = 40, pt_y = 50\<rparr>]
   \<and> pageAnnotations exampleManager (currentPage exampleEnv) = [3, 2]
   \<and> areCoordinatesNormalized (heap exampleManager 3) (Some exampleViewport)
   \<and> areCoordinatesNormalized (heap exampleManager 2) (Some exampleViewport)
   \<and> (case mouseup 40 50 exampleViewport exampleEnv ''a5'' ''t5'' (exampleGesture, exampleManager) of
         (res, g', st') \<Rightarrow>
           res = Returned ()
           \<and> annotations st' = annotations exampleManager
           \<and> nextRef st' = nextRef exampleManager
           \<and> notifications st' = notifications exampleManager
           \<and> heap st' = heap exampleManager)"
proof -
  have g: "g_isDrawing exampleGesture" by (simp add: exampleGesture_def)
  have t: "currentTool exampleManager = ''draw''" by (simp add: exampleManager_def)
  have s: "currentStroke exampleManager = Some [\<lparr>pt_x = 40, pt_y = 50\<rparr>]"
    by (simp add: exampleManager_def)
  have s': "case currentStroke exampleManager of None \<Rightarrow> True | Some stroke \<Rightarrow> length stroke < 2"
    by (simp add: s)
  have n: "\<forall>r\<in>set (pageAnnotations exampleManager (currentPage exampleEnv)).
         areCoordinatesNormalized (heap exampleManager r) (Some exampleViewport)"
    by (simp add: pageAnnotations_def areCoordinatesNormalized_def example_defs exampleEnv_def)
  have p: "pageAnnotations exampleManager (currentPage exampleEnv) = [3, 2]"
    by (simp add: pageAnnotations_def exampleManager_def exampleEnv_def)
  show ?thesis
    using degenerate_draw_commit_discarded
            [OF g t s', where cx = 40 and cy = 50 and viewport = exampleViewport
              and e = exampleEnv and newId = "''a5''" and now = "''t5''"] g t s n p
    by (auto split: prod.splits)
qed

section \<open>Deleting by id\<close>

lemma findIndex_None: "findIndex P xs = None \<longleftrightarrow> (\<forall>x\<in>set xs. \<not> P x)"
  by (induction xs) auto

lemma removeFirst_Nil [simp]: "removeFirst P [] = []"
  by (simp add: removeFirst_def)

lemma removeFirst_Cons:
  "removeFirst P (x # xs) = (if P x then xs else x # removeFirst P xs)"
  by (simp add: removeFirst_def split: option.splits)

lemma removeFirst_filter:
  "distinct (map f xs) \<Longrightarrow> removeFirst (\<lambda>a. f a = v) xs = filter (\<lambda>a. f a \<noteq> v) xs"
proof (induction xs)
  case Nil
  then show ?case by simp
next
  case (Cons x xs)
  show ?case
  proof (cases "f x = v")
    case True
    with Cons.prems have "\<forall>a\<in>set xs. f a \<noteq> v" by (auto simp add: image_iff)
    then have "filter (\<lambda>a. f a \<noteq> v) xs = xs" by simp
    with True show ?thesis by (simp add: removeFirst_Cons)
  next
    case False
    with Cons show ?thesis by (simp add: removeFirst_Cons)
  qed
qed

text \<open>Rendering with a \<^verbatim>\<open>null\<close> viewport throws as soon as the page has a record.\<close>

lemma renderEach_None:
  "renderEach rs None h = (if rs = [] then Returned () else Thrown TypeError, h)"
  by (cases rs)
    (simp_all add: renderSingleAnnotation_def migratePixelToNormalized_def migrateFields_def)

lemma renderAnnotations_None:
  "renderAnnotations p None st
   = (if pageAnnotations st p = [] then Returned () else Thrown TypeError, st)"
  by (simp add: renderAnnotations_def renderEach_None)

lemma map_key_absent:
  "k \<notin> fst ` set al \<Longrightarrow>
   map (\<lambda>(k', refs). if k' = k then (k', s) else (k', refs)) al = al"
  by (induction al) auto

lemma pageAnnotations_mid:
  assumes "annotations st = pre @ (k, refs) # rest" and "k \<notin> fst ` set pre"
  shows "pageAnnotations st k = refs"
proof -
  have "map_of pre k = None" using assms(2) by (simp add: map_of_eq_None_iff)
  then show ?thesis using assms(1) by (simp add: pageAnnotations_def map_add_def)
qed

lemma deleteEach_no_match:
  assumes "\<forall>k\<in>set keys. \<forall>r\<in>set (pageAnnotations st k). ann_id (heap st r) \<noteq> annotationId"
  shows "deleteEach keys annotationId e st = (Returned (), st)"
  using assms
proof (induction keys)
  case Nil
  then show ?case by simp
next
  case (Cons k keys)
  then have "findIndex (\<lambda>a. ann_id (heap st a) = annotationId) (pageAnnotations st k) = None"
    by (simp add: findIndex_None)
  with Cons show ?case by simp
qed

lemma filter_pages_id:
  assumes "\<forall>r\<in>set (concat (map snd al)). Q r"
  shows "map (\<lambda>(k, refs). (k, filter Q refs)) al = al"
  using assms by (induction al) auto

lemma manager_annotations_triv: "annotations st = al \<Longrightarrow> st\<lparr>annotations := al\<rparr> = st"
  by auto

lemma pageAnnotations_entry:
  assumes "distinct (map fst (annotations st))" and "(k, refs) \<in> set (annotations st)"
  shows "pageAnnotations st k = refs"
  using map_of_is_SomeI [OF assms] by (simp add: pageAnnotations_def)

text \<open>
  With unique page keys and unique ids the loop leaves the store with exactly the
  matching record filtered out of every page, whether it completes or throws, and it
  throws exactly when the displayed page is re-rendered with a record left on it.
\<close>

lemma deleteEach_unique:
  assumes "annotations st = pre @ suf"
    and "distinct (map fst (pre @ suf))"
    and "distinct (map (\<lambda>r. ann_id (heap st r)) (concat (map snd suf)))"
  shows "deleteEach (map fst suf) annotationId e st
           = (if annotationCanvas e \<and> currentPage e \<in> fst ` set suf
                 \<and> (\<exists>r\<in>set (pageAnnotations st (currentPage e)).
                       ann_id (heap st r) = annotationId)
                 \<and> filter (\<lambda>r. ann_id (heap st r) \<noteq> annotationId)
                       (pageAnnotations st (currentPage e)) \<noteq> []
              then Thrown TypeError else Returned (),
              st\<lparr>annotations :=
                    pre @ map (\<lambda>(k, refs).
                                 (k, filter (\<lambda>r. ann_id (heap st r) \<noteq> annotationId) refs))
                            suf\<rparr>)"
  using assms
proof (induction suf arbitrary: pre st)
  case Nil
  then show ?case by (simp add: manager_annotations_triv)
next
  case (Cons entry rest)
  obtain k refs where entry: "entry = (k, refs)" by (cases entry)
  let ?P = "\<lambda>a. ann_id (heap st a) = annotationId"
  let ?Q = "\<lambda>r. ann_id (heap st r) \<noteq> annotationId"
  let ?filt = "\<lambda>(k, refs). (k, filter ?Q refs)"
  have anns: "annotations st = pre @ (k, refs) # rest" using Cons.prems(1) entry by simp
  have dkeys: "distinct (map fst (annotations st))" using Cons.prems(1,2) by simp
  have kpre: "k \<notin> fst ` set pre" and krest: "k \<notin> fst ` set rest"
    using Cons.prems(2) entry by auto
  have page: "pageAnnotations st k = refs" by (rule pageAnnotations_mid [OF anns kpre])
  have drefs: "distinct (map (\<lambda>r. ann_id (heap st r)) refs)"
    and drest: "distinct (map (\<lambda>r. ann_id (heap st r)) (concat (map snd rest)))"
    using Cons.prems(3) entry by simp_all
  show ?case
  proof (cases "findIndex ?P refs")
    case None
    then have nom: "\<forall>r\<in>set refs. ?Q r" by (simp add: findIndex_None)
    then have fr: "filter ?Q refs = refs" by simp
    have ih: "deleteEach (map fst rest) annotationId e st
           = (if annotationCanvas e \<and> currentPage e \<in> fst ` set rest
                 \<and> (\<exists>r\<in>set (pageAnnotations st (currentPage e)). ?P r)
                 \<and> filter ?Q (pageAnnotations st (currentPage e)) \<noteq> []
              then Thrown TypeError else Returned (),
              st\<lparr>annotations := (pre @ [(k, refs)]) @ map ?filt rest\<rparr>)"
      by (rule Cons.IH) (use anns Cons.prems(2) entry drest in simp_all)
    have cond: "(currentPage e \<in> fst ` set (entry # rest)
                 \<and> (\<exists>r\<in>set (pageAnnotations st (currentPage e)). ?P r))
            \<longleftrightarrow> (currentPage e \<in> fst ` set rest
                 \<and> (\<exists>r\<in>set (pageAnnotations st (currentPage e)). ?P r))"
      using nom page entry by auto
    have "deleteEach (map fst (entry # rest)) annotationId e st
        = deleteEach (map fst rest) annotationId e st"
      by (simp add: entry page None)
    then show ?thesis
      unfolding ih using cond fr by (auto simp add: entry)
  next
    case (Some i)
    define spliced where "spliced = take i refs @ drop (Suc i) refs"
    have "spliced = removeFirst ?P refs" by (simp add: spliced_def removeFirst_def Some)
    then have spl: "spliced = filter ?Q refs" using removeFirst_filter [OF drefs] by simp
    define st1 where "st1 = st\<lparr>annotations :=
        map (\<lambda>(k', refs'). if k' = k then (k', spliced) else (k', refs')) (annotations st)\<rparr>"
    have anns1: "annotations st1 = pre @ (k, spliced) # rest"
      by (simp add: st1_def anns map_key_absent [OF kpre] map_key_absent [OF krest])
    have heap1: "heap st1 = heap st" by (simp add: st1_def)
    have st1_eq: "st1 = st\<lparr>annotations := pre @ (k, spliced) # rest\<rparr>"
      using anns1 by (simp add: st1_def)
    have dkeys1: "distinct (map fst (annotations st1))"
      using Cons.prems(2) entry by (simp add: anns1)
    have page1: "pageAnnotations st1 k = spliced" by (rule pageAnnotations_mid [OF anns1 kpre])
    from Some have ex: "\<exists>x\<in>set refs. ?P x" using findIndex_None [of ?P refs] by auto
    then obtain x where x: "x \<in> set refs" "ann_id (heap st x) = annotationId" by blast
    define f where "f = (\<lambda>r. ann_id (heap st r))"
    define A where "A = f ` set refs"
    define B where "B = f ` set (concat (map snd rest))"
    have disj: "A \<inter> B = {}"
      using Cons.prems(3) entry by (simp add: f_def A_def B_def)
    have fx: "f x \<in> A" unfolding A_def using x(1) by (rule imageI)
    have nomatch: "\<forall>r\<in>set (concat (map snd rest)). ?Q r"
    proof
      fix r
      assume "r \<in> set (concat (map snd rest))"
      then have fr: "f r \<in> B" unfolding B_def by (rule imageI)
      have "f r \<noteq> f x"
      proof
        assume "f r = f x"
        with fr have "f x \<in> B" by simp
        with fx have "f x \<in> A \<inter> B" by (rule IntI)
        with disj show False by simp
      qed
      then show "ann_id (heap st r) \<noteq> annotationId" using x(2) by (simp add: f_def)
    qed
    have rest_id: "map ?filt rest = rest" by (rule filter_pages_id [OF nomatch])
    have target: "st\<lparr>annotations := pre @ map ?filt (entry # rest)\<rparr> = st1"
      by (simp add: entry rest_id spl st1_eq)
    have rest_pages: "\<forall>r\<in>set (pageAnnotations s k'). ?Q r"
      if "k' \<in> fst ` set rest" "distinct (map fst (annotations s))"
        "set rest \<subseteq> set (annotations s)" for k' s
    proof -
      from that(1) obtain refs' where in_rest: "(k', refs') \<in> set rest" by auto
      with that(3) have "(k', refs') \<in> set (annotations s)" by auto
      from pageAnnotations_entry [OF that(2) this] have "pageAnnotations s k' = refs'" .
      moreover have "set refs' \<subseteq> set (concat (map snd rest))" using in_rest by force
      ultimately show ?thesis using nomatch by auto
    qed
    have nomatch1: "\<forall>k'\<in>set (map fst rest).
        \<forall>r\<in>set (pageAnnotations st1 k'). ann_id (heap st1 r) \<noteq> annotationId"
      using rest_pages [OF _ dkeys1] by (auto simp add: anns1 heap1)
    have cont: "deleteEach (map fst rest) annotationId e st1 = (Returned (), st1)"
      by (rule deleteEach_no_match [OF nomatch1])
    have step: "deleteEach (map fst (entry # rest)) annotationId e st
        = (if k = currentPage e \<and> annotationCanvas e then
             (case renderAnnotations k None st1 of
                (Thrown err, st2) \<Rightarrow> (Thrown err, st2)
              | (Returned _, st2) \<Rightarrow> deleteEach (map fst rest) annotationId e st2)
           else deleteEach (map fst rest) annotationId e st1)"
      unfolding st1_def spliced_def entry
      by (simp add: page Some Let_def)
    have result: "deleteEach (map fst (entry # rest)) annotationId e st
        = (if k = currentPage e \<and> annotationCanvas e \<and> spliced \<noteq> []
           then Thrown TypeError else Returned (), st1)"
    proof (cases "k = currentPage e \<and> annotationCanvas e")
      case True
      then have "pageAnnotations st1 (currentPage e) = spliced" using page1 by simp
      with True show ?thesis
        unfolding step renderAnnotations_None by (simp add: cont)
    next
      case False
      then show ?thesis unfolding step by (auto simp add: cont)
    qed
    have cond: "(currentPage e \<in> fst ` set (entry # rest)
                 \<and> (\<exists>r\<in>set (pageAnnotations st (currentPage e)). ?P r)
                 \<and> filter ?Q (pageAnnotations st (currentPage e)) \<noteq> [])
            \<longleftrightarrow> (k = currentPage e \<and> spliced \<noteq> [])"
    proof (cases "k = currentPage e")
      case True
      with page ex spl entry show ?thesis by auto
    next
      case False
      have "\<not> (currentPage e \<in> fst ` set rest
                 \<and> (\<exists>r\<in>set (pageAnnotations st (currentPage e)). ?P r))"
        using rest_pages [OF _ dkeys, of "currentPage e"] by (auto simp add: anns)
      with False entry show ?thesis by auto
    qed
    show ?thesis
      unfolding target result using cond by auto
  qed
qed

lemma distinct_pages:
  assumes "distinct (map f (concat (map snd al)))"
  shows "map (\<lambda>(k, refs). (k, filter (\<lambda>r. f r \<noteq> v) refs)) al
         = map (\<lambda>(k, refs). (k, removeFirst (\<lambda>r. f r = v) refs)) al"
  using assms
proof (induction al)
  case Nil
  then show ?case by simp
next
  case (Cons entry al)
  obtain k refs where entry: "entry = (k, refs)" by (cases entry)
  from Cons.prems entry have "distinct (map f refs)" "distinct (map f (concat (map snd al)))"
    by simp_all
  with Cons.IH entry show ?case by (simp add: removeFirst_filter)
qed

lemma concat_filter_pages:
  "concat (map snd (map (\<lambda>(k, refs). (k, filter Q refs)) al)) = filter Q (concat (map snd al))"
  by (induction al) auto

lemma pageAnnotations_subset: "set (pageAnnotations st k) \<subseteq> set (allRecords st)"
proof (cases "map_of (annotations st) k")
  case None
  then show ?thesis by (simp add: pageAnnotations_def)
next
  case (Some refs)
  then have "(k, refs) \<in> set (annotations st)" by (rule map_of_SomeD)
  then have "set refs \<subseteq> set (allRecords st)" by (force simp add: allRecords_def)
  with Some show ?thesis by (simp add: pageAnnotations_def)
qed

text \<open>
  The method has no \<^verbatim>\<open>return\<close> statement: deleting an id that is present evaluates to
  \<^verbatim>\<open>undefined\<close>, not to \<^verbatim>\<open>true\<close>.
\<close>

theorem deleteAnnotation_returns_no_boolean:
  "fst (deleteAnnotation ''a1'' exampleEnv exampleManager) = Returned Undefined
   \<and> fst (deleteAnnotation ''a1'' exampleEnv exampleManager) \<noteq> Returned (Boolean True)"
  by (simp add: deleteAnnotation_def pageAnnotations_def renderAnnotations_None
      showNotification_def example_defs exampleEnv_def)

text \<open>
  Deleting a record of the displayed page that is not the last one there re-renders with
  a \<^verbatim>\<open>null\<close> viewport and throws, after the record has been removed.
\<close>

lemma deleteAnnotation_throws_example:
  "fst (deleteAnnotation ''a4'' exampleEnv exampleManager) = Thrown TypeError"
  by (simp add: deleteAnnotation_def pageAnnotations_def renderAnnotations_None
      showNotification_def example_defs exampleEnv_def)

lemma distinct_entry:
  assumes "distinct (map f (concat (map snd al)))" and "(k, refs) \<in> set al"
  shows "distinct (map f refs)"
  using assms by (induction al) auto

lemma pageAnnotations_distinct_ids:
  assumes "uniqueIds st"
  shows "distinct (map (\<lambda>r. ann_id (heap st r)) (pageAnnotations st k))"
proof (cases "map_of (annotations st) k")
  case None
  then show ?thesis by (simp add: pageAnnotations_def)
next
  case (Some refs)
  then have "(k, refs) \<in> set (annotations st)" by (rule map_of_SomeD)
  with assms have "distinct (map (\<lambda>r. ann_id (heap st r)) refs)"
    unfolding uniqueIds_def allRecords_def by (rule distinct_entry)
  with Some show ?thesis by (simp add: pageAnnotations_def)
qed

lemma pageAnnotations_key:
  assumes "pageAnnotations st k \<noteq> []"
  shows "k \<in> fst ` set (annotations st)"
proof -
  from assms obtain refs where "map_of (annotations st) k = Some refs"
    by (auto simp add: pageAnnotations_def split: option.splits)
  then have "(k, refs) \<in> set (annotations st)" by (rule map_of_SomeD)
  then show ?thesis by force
qed

lemma deleteEach_outcome:
  assumes "distinct (map fst (annotations st))" and "uniqueIds st"
  shows "deleteEach (map fst (annotations st)) annotationId e st
         = (if rerenderThrows annotationId e st then Thrown TypeError else Returned (),
            st\<lparr>annotations :=
                  map (\<lambda>(k, refs).
                         (k, filter (\<lambda>r. ann_id (heap st r) \<noteq> annotationId) refs))
                    (annotations st)\<rparr>)"
proof -
  let ?P = "\<lambda>r. ann_id (heap st r) = annotationId"
  let ?Q = "\<lambda>r. ann_id (heap st r) \<noteq> annotationId"
  have ids: "distinct (map (\<lambda>r. ann_id (heap st r)) (concat (map snd (annotations st))))"
    using assms(2) by (simp add: uniqueIds_def allRecords_def)
  have rf: "removeFirst ?P (pageAnnotations st (currentPage e))
      = filter ?Q (pageAnnotations st (currentPage e))"
    by (rule removeFirst_filter [OF pageAnnotations_distinct_ids [OF assms(2)]])
  have key: "currentPage e \<in> fst ` set (annotations st)"
    if "\<exists>r\<in>set (pageAnnotations st (currentPage e)). ?P r"
    using that by (intro pageAnnotations_key) auto
  have cond: "rerenderThrows annotationId e st
      \<longleftrightarrow> (annotationCanvas e \<and> currentPage e \<in> fst ` set (annotations st)
           \<and> (\<exists>r\<in>set (pageAnnotations st (currentPage e)). ?P r)
           \<and> filter ?Q (pageAnnotations st (currentPage e)) \<noteq> [])"
    unfolding rerenderThrows_def rf using key by blast
  show ?thesis
    using deleteEach_unique [of st "[]" "annotations st" annotationId e] assms(1) ids
    by (simp add: cond)
qed

text \<open>
  C7 (as amended). In a store with unique page keys and unique ids, \<^verbatim>\<open>deleteAnnotation\<close>
  never evaluates to a boolean: a call that completes returns \<^verbatim>\<open>undefined\<close>, and the call
  completes whenever no annotation canvas exists, the displayed page holds no record
  with the id, or the matching record is the only record of the displayed page. It
  leaves the records themselves untouched and removes from every page the first record
  whose id matches, which over the whole store is the first match only, so at most one
  record. A second call with the same id returns \<^verbatim>\<open>undefined\<close> and leaves the page arrays
  and the records unchanged.
\<close>

theorem deleteAnnotation_removes_first_match:
  assumes "distinct (map fst (annotations st))" and "uniqueIds st"
  shows "case deleteAnnotation annotationId e st of
           (res, st1) \<Rightarrow>
             (\<forall>b. res \<noteq> Returned (Boolean b))
             \<and> (res = Returned Undefined \<or> (\<exists>err. res = Thrown err))
             \<and> (\<not> rerenderThrows annotationId e st \<longrightarrow> res = Returned Undefined)
             \<and> heap st1 = heap st
             \<and> annotations st1
                 = map (\<lambda>(k, refs).
                          (k, removeFirst (\<lambda>r. ann_id (heap st r) = annotationId) refs))
                     (annotations st)
             \<and> allRecords st1
                 = removeFirst (\<lambda>r. ann_id (heap st r) = annotationId) (allRecords st)
             \<and> (case deleteAnnotation annotationId e st1 of
                   (res2, st2) \<Rightarrow>
                     res2 = Returned Undefined
                     \<and> annotations st2 = annotations st1 \<and> heap st2 = heap st1)"
proof -
  let ?Q = "\<lambda>r. ann_id (heap st r) \<noteq> annotationId"
  let ?P = "\<lambda>r. ann_id (heap st r) = annotationId"
  define st' where
    "st' = st\<lparr>annotations := map (\<lambda>(k, refs). (k, filter ?Q refs)) (annotations st)\<rparr>"
  define res where
    "res = (if rerenderThrows annotationId e st then Thrown TypeError else Returned ())"
  have ids: "distinct (map (\<lambda>r. ann_id (heap st r)) (concat (map snd (annotations st))))"
    using assms(2) by (simp add: uniqueIds_def allRecords_def)
  have del: "deleteEach (map fst (annotations st)) annotationId e st = (res, st')"
    using deleteEach_outcome [OF assms] by (simp add: res_def st'_def)
  have heap': "heap st' = heap st" by (simp add: st'_def)
  have anns': "annotations st'
      = map (\<lambda>(k, refs). (k, removeFirst ?P refs)) (annotations st)"
    using distinct_pages [OF ids, of annotationId] by (simp add: st'_def)
  have all': "allRecords st' = removeFirst ?P (allRecords st)"
    using removeFirst_filter [OF ids, of annotationId]
    by (simp add: st'_def allRecords_def concat_filter_pages del: map_map)
  have allQ: "\<forall>r\<in>set (allRecords st'). ?Q r"
    by (simp add: st'_def allRecords_def concat_filter_pages del: map_map)
  define st1 where "st1 = snd (deleteAnnotation annotationId e st)"
  have first: "deleteAnnotation annotationId e st
      = (if rerenderThrows annotationId e st then Thrown TypeError else Returned Undefined, st1)"
    and st1: "heap st1 = heap st'" "annotations st1 = annotations st'"
    by (simp_all add: st1_def deleteAnnotation_def del res_def showNotification_def)
  have all1: "allRecords st1 = allRecords st'" by (simp add: allRecords_def st1(2))
  have nomatch: "\<forall>k\<in>set (map fst (annotations st1)).
      \<forall>r\<in>set (pageAnnotations st1 k). ann_id (heap st1 r) \<noteq> annotationId"
    using allQ pageAnnotations_subset [of st1] by (auto simp add: all1 st1(1) heap')
  have second: "deleteAnnotation annotationId e st1
      = (Returned Undefined, showNotification ''Annotation deleted'' ''success'' st1)"
    by (simp add: deleteAnnotation_def deleteEach_no_match [OF nomatch])
  show ?thesis
    by (simp add: first second st1 heap' anns' all1 all')
qed

theorem deleteAnnotation_removes_first_match_witness:
  "distinct (map fst (annotations exampleManager)) \<and> uniqueIds exampleManager
   \<and> \<not> rerenderThrows ''a1'' exampleEnv exampleManager
   \<and> (case deleteAnnotation ''a1'' exampleEnv exampleManager of
         (res, st1) \<Rightarrow>
           res = Returned Undefined
           \<and> heap st1 = heap exampleManager
           \<and> allRecords st1 = [1, 3, 2]
           \<and> (case deleteAnnotation ''a1'' exampleEnv st1 of
                 (res2, st2) \<Rightarrow>
                   res2 = Returned Undefined
                   \<and> annotations st2 = annotations st1 \<and> heap st2 = heap st1))
   \<and> distinct (map fst (annotations singlePageManager)) \<and> uniqueIds singlePageManager
   \<and> currentPage exampleEnv = 2 \<and> annotationCanvas exampleEnv
   \<and> pageAnnotations singlePageManager 2 = [3]
   \<and> \<not> rerenderThrows ''a4'' exampleEnv singlePageManager
   \<and> (case deleteAnnotation ''a4'' exampleEnv singlePageManager of
         (res, st1) \<Rightarrow>
           res = Returned Undefined
           \<and> annotations st1 = [(1, [0, 1]), (2, []), (3, [2])]
           \<and> allRecords st1 = [0, 1, 2])"
proof -
  have k: "distinct (map fst (annotations exampleManager))"
    by (simp add: exampleManager_def)
  have u: "uniqueIds exampleManager"
    by (simp add: uniqueIds_def allRecords_def example_defs)
  have t: "\<not> rerenderThrows ''a1'' exampleEnv exampleManager"
    by (simp add: rerenderThrows_def pageAnnotations_def removeFirst_def example_defs
        exampleEnv_def)
  have r: "removeFirst (\<lambda>r. ann_id (heap exampleManager r) = ''a1'') (allRecords exampleManager)
      = [1, 3, 2]"
    by (simp add: removeFirst_def allRecords_def example_defs)
  have k2: "distinct (map fst (annotations singlePageManager))"
    by (simp add: singlePageManager_def)
  have u2: "uniqueIds singlePageManager"
    by (simp add: uniqueIds_def allRecords_def singlePageManager_def example_defs)
  have e2: "currentPage exampleEnv = 2" "annotationCanvas exampleEnv"
    by (simp_all add: exampleEnv_def)
  have p2: "pageAnnotations singlePageManager 2 = [3]"
    by (simp add: pageAnnotations_def singlePageManager_def)
  have t2: "\<not> rerenderThrows ''a4'' exampleEnv singlePageManager"
    by (simp add: rerenderThrows_def pageAnnotations_def removeFirst_def singlePageManager_def
        example_defs exampleEnv_def)
  have r2: "removeFirst (\<lambda>r. ann_id (heap singlePageManager r) = ''a4'')
              (allRecords singlePageManager) = [0, 1, 2]"
    "map (\<lambda>(k, refs). (k, removeFirst (\<lambda>r. ann_id (heap singlePageManager r) = ''a4'') refs))
       (annotations singlePageManager) = [(1, [0, 1]), (2, []), (3, [2])]"
    by (simp_all add: removeFirst_def allRecords_def singlePageManager_def example_defs)
  show ?thesis
    using deleteAnnotation_removes_first_match [OF k u, of "''a1''" exampleEnv] deleteAnnotation_removes_first_match [OF k2 u2, of "''a4''" exampleEnv]
      k u t k2 u2 e2 p2 t2
    by (simp add: r r2 split: prod.splits)
qed

end
